theory Spec2Isabelle
  imports Main "HOL-Library.Word"
begin

unbundle bit_operations_syntax

section \<open>The protocol core of the SampSharp server (src/SampSharp/server.cpp)\<close>

text \<open>
  The server is single threaded. Its state is the status bit mask, the transport
  \<open>communication_\<close>, and the two registries \<open>natives_\<close> and \<open>callbacks_\<close>. Members of
  the C++ class end in an underscore, which Isabelle does not accept at the end of a name:
  the record fields carry the suffix \<open>_m\<close> instead (\<open>status_m\<close> is \<open>status_\<close>).

  The scratch buffer \<open>buf_\<close> is not a field of the model. Every function of the file
  reads the bytes of a frame before the next write to \<open>buf_\<close>, so the bytes are passed
  by value, as a list, together with the length the code passes along with them.
\<close>

subsection \<open>Machine types and constants\<close>

type_synonym uint8_t = "8 word"
type_synonym uint32_t = "32 word"
type_synonym cell = "32 word"

definition LEN_NETBUF :: uint32_t where "LEN_NETBUF = 20000"

definition CMD_PING :: uint8_t where "CMD_PING = 0x01"
definition CMD_PRINT :: uint8_t where "CMD_PRINT = 0x02"
definition CMD_RESPONSE :: uint8_t where "CMD_RESPONSE = 0x03"
definition CMD_RECONNECT :: uint8_t where "CMD_RECONNECT = 0x04"
definition CMD_REGISTER_CALL :: uint8_t where "CMD_REGISTER_CALL = 0x05"
definition CMD_FIND_NATIVE :: uint8_t where "CMD_FIND_NATIVE = 0x06"
definition CMD_INVOKE_NATIVE :: uint8_t where "CMD_INVOKE_NATIVE = 0x07"
definition CMD_START :: uint8_t where "CMD_START = 0x08"

definition CMD_TICK :: uint8_t where "CMD_TICK = 0x11"
definition CMD_PONG :: uint8_t where "CMD_PONG = 0x12"
definition CMD_PUBLIC_CALL :: uint8_t where "CMD_PUBLIC_CALL = 0x13"
definition CMD_REPLY :: uint8_t where "CMD_REPLY = 0x14"
definition CMD_ANNOUNCE :: uint8_t where "CMD_ANNOUNCE = 0x15"

subsection \<open>The status flags\<close>

text \<open>
  Modelled from the spec: the enumeration \<open>status\<close> is declared in server.h, which is
  not among the sources. The code combines its enumerators with \<open>|\<close>, \<open>&\<close> and \<open>~\<close>,
  and the specification calls them independent flags, so each enumerator is one bit of
  its own, in the order in which the specification lists them.
\<close>

type_synonym status = "32 word"

definition status_none :: status where "status_none = 0"
definition status_client_connected :: status where "status_client_connected = 1"
definition status_client_started :: status where "status_client_started = 2"
definition status_client_received_init :: status where "status_client_received_init = 4"
definition status_server_received_init :: status where "status_server_received_init = 8"
definition status_client_reconnecting :: status where "status_client_reconnecting = 16"

text \<open>The three status macros, with \<open>status_\<close> made a parameter.\<close>

definition STATUS_SET :: "status \<Rightarrow> status \<Rightarrow> status" where
  "STATUS_SET st v = st OR v"

definition STATUS_UNSET :: "status \<Rightarrow> status \<Rightarrow> status" where
  "STATUS_UNSET st v = st AND NOT v"

definition STATUS_ISSET :: "status \<Rightarrow> status \<Rightarrow> bool" where
  "STATUS_ISSET st v = (st AND v = v)"

subsection \<open>Outcomes of a pull, and what the server shows to the outside\<close>

datatype cmd_status = conn_dead | no_cmd | handled | unhandled

text \<open>
  Logging, printing and the console command of the host are calls into code outside the
  file. The model records every such call, in order, in the field \<open>console\<close>.
  \<open>log_debug\<close> has an empty body unless DEBUG is defined and is left out.
  \<open>Printed\<close> records a call \<open>print("%s", buf)\<close> with the bytes of the frame at
  \<open>buf\<close>: the text that appears is the C string that begins there, which ends at the
  first zero byte of the frame or, when the frame has none, further on in \<open>buf_\<close>,
  among bytes that the model does not hold.
\<close>

datatype output_entry =
    Printed "uint8_t list"
  | LogError string
  | LogInfo string
  | RconCommand string

text \<open>
  A frame handed to the transport: command, length and the bytes passed with them. The
  model records every call of \<open>communication_->send\<close>, in order: the frame in the
  field \<open>sent\<close> and the value of \<open>status_\<close> at the moment of the call in the field
  \<open>sent_status\<close>.
\<close>

type_synonym frame = "uint8_t \<times> uint32_t \<times> uint8_t list"

text \<open>
  Modelled from the spec: the classes \<open>natives_map\<close> and \<open>callbacks_map\<close> are not among
  the sources. A registry is the list of its entries, each an opaque byte string;
  \<open>clear()\<close> leaves it without entries, and an empty list is a registry that reports
  empty. What the other operations compute is a parameter (see \<open>collaborators\<close>).
\<close>

type_synonym registry = "uint8_t list list"

definition registry_clear :: "registry \<Rightarrow> registry" where
  "registry_clear r = []"

record 't server =
  status_m :: status
  communication_m :: 't
  natives_m :: registry
  callbacks_m :: registry
  sent :: "frame list"
  sent_status :: "status list"
  console :: "output_entry list"

text \<open>
  The collaborators of the server are abstract classes and classes of other files. They
  are parameters of the model: the transport (\<open>communication_server\<close>) is a table of
  functions over a transport state \<open>'t\<close>, and so are the operations of the registries
  and the two version numbers of version.h. A transport operation changes the state of
  the transport only and an operation of a registry the state of that registry only:
  neither calls back into the server, so a native that is invoked sends and receives
  nothing.

  \<open>comm_receive\<close> gets the capacity the code passes in \<open>command_len\<close> and yields the
  status, the command, the bytes now in the receive buffer and the length it reports.
  \<open>natives_invoke\<close> gets the request, its length and the capacity, and yields the bytes
  it wrote and their length. \<open>callbacks_fill_call_buffer\<close> yields the length it
  returns and the bytes it wrote.
\<close>

record 't collaborators =
  comm_is_connected :: "'t \<Rightarrow> bool"
  comm_is_ready :: "'t \<Rightarrow> bool"
  comm_setup :: "'t \<Rightarrow> bool \<times> 't"
  comm_connect :: "'t \<Rightarrow> bool \<times> 't"
  comm_disconnect :: "'t \<Rightarrow> 't"
  comm_send :: "uint8_t \<Rightarrow> uint32_t \<Rightarrow> uint8_t list \<Rightarrow> 't \<Rightarrow> 't"
  comm_receive :: "uint32_t \<Rightarrow> 't \<Rightarrow> (cmd_status \<times> uint8_t \<times> uint8_t list \<times> uint32_t) \<times> 't"
  natives_get_handle :: "registry \<Rightarrow> uint8_t list \<Rightarrow> cell \<times> registry"
  natives_invoke :: "registry \<Rightarrow> uint8_t list \<Rightarrow> uint32_t \<Rightarrow> uint32_t
                       \<Rightarrow> (uint8_t list \<times> uint32_t) \<times> registry"
  callbacks_register_buffer :: "registry \<Rightarrow> uint8_t list \<Rightarrow> registry"
  callbacks_fill_call_buffer :: "registry \<Rightarrow> nat option \<Rightarrow> string \<Rightarrow> cell list
                       \<Rightarrow> uint32_t \<Rightarrow> uint32_t \<times> uint8_t list"
  PLUGIN_PROTOCOL_VERSION :: uint32_t
  PLUGIN_VERSION :: uint32_t

text \<open>The constructor: no flag set, both registries new.\<close>

definition server_init :: "'t \<Rightarrow> 't server" where
  "server_init communication =
     \<lparr> status_m = status_none, communication_m = communication,
       natives_m = [], callbacks_m = [], sent = [], sent_status = [], console = [] \<rparr>"

subsection \<open>Bytes\<close>

text \<open>
  \<open>byte_at\<close> reads \<open>buf[i]\<close>. The buffers of the code are longer than the bytes a
  frame fills, and the model lists the bytes the transport hands over only. A read
  inside the list is the read of the code. A read past the list gives 0 in the model,
  where the code reads whatever the buffer holds there: a theorem about a value read
  assumes that the transport hands over as many bytes as it reports
  (\<open>receive_fits\<close>), which keeps the read inside the list.
\<close>

definition byte_at :: "uint8_t list \<Rightarrow> nat \<Rightarrow> uint8_t" where
  "byte_at buf i = (if i < length buf then buf ! i else 0)"

text \<open>
  A 32-bit value seen as bytes and back, for \<open>(uint8_t *)&handle\<close> and
  \<open>*((uint32_t *)(response + 1))\<close>. The byte order is that of the x86 hosts of the
  game server: least significant byte first.
\<close>

definition bytes_of_uint32 :: "uint32_t \<Rightarrow> uint8_t list" where
  "bytes_of_uint32 w =
     [ucast w, ucast (drop_bit 8 w), ucast (drop_bit 16 w), ucast (drop_bit 24 w)]"

definition uint32_at :: "uint8_t list \<Rightarrow> nat \<Rightarrow> uint32_t" where
  "uint32_at buf i =
     ucast (byte_at buf i) OR push_bit 8 (ucast (byte_at buf (i + 1)))
       OR push_bit 16 (ucast (byte_at buf (i + 2)))
       OR push_bit 24 (ucast (byte_at buf (i + 3)))"

subsection \<open>Logging and sending\<close>

definition print :: "uint8_t list \<Rightarrow> 't server \<Rightarrow> 't server" where
  "print text s = s\<lparr>console := console s @ [Printed text]\<rparr>"

text \<open>
  \<open>vlog\<close> formats the message into a buffer of \<open>LEN_PRINT_BUFFER\<close> characters and
  ends it at the last one: a longer message is cut to \<open>LEN_PRINT_BUFFER - 1\<close>
  characters (\<open>vsnprintf\<close>). \<open>log_error\<close> and \<open>log_info\<close> take the message
  already formatted.
\<close>

definition LEN_PRINT_BUFFER :: nat where "LEN_PRINT_BUFFER = 1024"

definition vlog :: "string \<Rightarrow> string" where
  "vlog msg = take (LEN_PRINT_BUFFER - 1) msg"

definition log_error :: "string \<Rightarrow> 't server \<Rightarrow> 't server" where
  "log_error msg s = s\<lparr>console := console s @ [LogError (vlog msg)]\<rparr>"

definition log_info :: "string \<Rightarrow> 't server \<Rightarrow> 't server" where
  "log_info msg s = s\<lparr>console := console s @ [LogInfo (vlog msg)]\<rparr>"

definition sampgdk_SendRconCommand :: "string \<Rightarrow> 't server \<Rightarrow> 't server" where
  "sampgdk_SendRconCommand c s = s\<lparr>console := console s @ [RconCommand c]\<rparr>"

text \<open>
  \<open>communication_->send(cmd, len, buf)\<close>: the transport changes state, and the frame
  and the status at this moment are appended to the records of the sends.
\<close>

definition communication_send ::
  "'t collaborators \<Rightarrow> uint8_t \<Rightarrow> uint32_t \<Rightarrow> uint8_t list \<Rightarrow> 't server \<Rightarrow> 't server" where
  "communication_send env cmd len buf s =
     s\<lparr>communication_m := comm_send env cmd len buf (communication_m s),
       sent := sent s @ [(cmd, len, buf)],
       sent_status := sent_status s @ [status_m s]\<rparr>"

subsection \<open>Getters\<close>

definition is_client_connected :: "'t collaborators \<Rightarrow> 't server \<Rightarrow> bool" where
  "is_client_connected env s =
     (comm_is_connected env (communication_m s)
      \<and> STATUS_ISSET (status_m s) status_client_connected)"

subsection \<open>Commands without a nested receive\<close>

definition cmd_ping ::
  "'t collaborators \<Rightarrow> uint8_t list \<Rightarrow> uint32_t \<Rightarrow> 't server \<Rightarrow> 't server" where
  "cmd_ping env buf buflen s = communication_send env CMD_PONG 0 [] s"

definition cmd_print ::
  "'t collaborators \<Rightarrow> uint8_t list \<Rightarrow> uint32_t \<Rightarrow> 't server \<Rightarrow> 't server" where
  "cmd_print env buf buflen s = print buf s"

definition cmd_register_call ::
  "'t collaborators \<Rightarrow> uint8_t list \<Rightarrow> uint32_t \<Rightarrow> 't server \<Rightarrow> 't server" where
  "cmd_register_call env buf buflen s =
     s\<lparr>callbacks_m := callbacks_register_buffer env (callbacks_m s) buf\<rparr>"

definition cmd_find_native ::
  "'t collaborators \<Rightarrow> uint8_t list \<Rightarrow> uint32_t \<Rightarrow> 't server \<Rightarrow> 't server" where
  "cmd_find_native env buf buflen s =
     (case natives_get_handle env (natives_m s) buf of
        (handle, natives') \<Rightarrow>
          communication_send env CMD_RESPONSE 4 (bytes_of_uint32 handle)
            (s\<lparr>natives_m := natives'\<rparr>))"

definition cmd_invoke_native ::
  "'t collaborators \<Rightarrow> uint8_t list \<Rightarrow> uint32_t \<Rightarrow> 't server \<Rightarrow> 't server" where
  "cmd_invoke_native env buf buflen s =
     (case natives_invoke env (natives_m s) buf buflen LEN_NETBUF of
        ((out, txlen), natives') \<Rightarrow>
          communication_send env CMD_RESPONSE txlen out (s\<lparr>natives_m := natives'\<rparr>))"

subsection \<open>Connecting and disconnecting\<close>

definition cmd_send_announce :: "'t collaborators \<Rightarrow> 't server \<Rightarrow> 't server" where
  "cmd_send_announce env s =
     log_info ''Server annoucement sent.''
       (communication_send env CMD_ANNOUNCE 8
          (bytes_of_uint32 (PLUGIN_PROTOCOL_VERSION env) @ bytes_of_uint32 (PLUGIN_VERSION env))
          s)"

text \<open>
  \<open>connect()\<close> returns its result and the state. \<open>setup\<close> is called only when the
  transport is not ready (the \<open>&&\<close> of the code).
\<close>

definition connect :: "'t collaborators \<Rightarrow> 't server \<Rightarrow> bool \<times> 't server" where
  "connect env s =
     (if comm_is_connected env (communication_m s) then (True, s)
      else
        let (ready, t1) =
              (if \<not> comm_is_ready env (communication_m s)
               then comm_setup env (communication_m s)
               else (True, communication_m s))
        in if \<not> ready then (False, s\<lparr>communication_m := t1\<rparr>)
           else
             let (connected, t2) = comm_connect env t1;
                 s2 = s\<lparr>communication_m := t2\<rparr>
             in if \<not> connected then (False, s2)
                else
                  let s3 = s2\<lparr>status_m := STATUS_SET (status_m s2) status_client_connected\<rparr>;
                      s4 = (if STATUS_ISSET (status_m s3) status_client_reconnecting
                            then log_info ''Client reconnected.'' s3
                            else cmd_send_announce env (log_info ''Connected to client.'' s3))
                  in (True, s4\<lparr>status_m := STATUS_UNSET (status_m s4) status_client_reconnecting\<rparr>))"

text \<open>\<open>context\<close> is a pointer to a string: \<open>None\<close> is the null pointer.\<close>

definition disconnect ::
  "'t collaborators \<Rightarrow> string option \<Rightarrow> bool \<Rightarrow> 't server \<Rightarrow> 't server" where
  "disconnect env context expected s =
     (if \<not> is_client_connected env s then s
      else
        let s1 =
              (if \<not> expected then
                 let context' = (case context of None \<Rightarrow> '''' | Some c \<Rightarrow> c);
                     e = log_error (''Unexpected disconnect of client. '' @ context') s;
                     e1 = e\<lparr>status_m := STATUS_UNSET (status_m e) status_client_started\<rparr>;
                     e2 = e1\<lparr>natives_m := registry_clear (natives_m e1)\<rparr>
                 in e2\<lparr>callbacks_m := registry_clear (callbacks_m e2)\<rparr>
               else log_info ''Client disconnected.'' s);
            s2 = s1\<lparr>communication_m := comm_disconnect env (communication_m s1)\<rparr>;
            s3 = s2\<lparr>communication_m := snd (comm_setup env (communication_m s2))\<rparr>
        in s3\<lparr>status_m := STATUS_UNSET (status_m s3) status_client_connected\<rparr>)"

definition cmd_reconnect ::
  "'t collaborators \<Rightarrow> uint8_t list \<Rightarrow> uint32_t \<Rightarrow> 't server \<Rightarrow> 't server" where
  "cmd_reconnect env buf buflen s =
     (let s1 = log_info ''The gamemode has is reconnecting.'' s;
          s2 = s1\<lparr>status_m := STATUS_SET (status_m s1) status_client_reconnecting\<rparr>
      in disconnect env None True s2)"

subsection \<open>Receiving: the start command, the dispatcher and the two pulls\<close>

text \<open>
  \<open>cmd_receive_unhandled\<close> polls until a reply or the end of the connection, and
  \<open>cmd_start\<close> calls it from inside the dispatcher, so the four functions are mutually
  recursive and need not return. Each takes fuel; every pass through the loop of
  \<open>cmd_receive_unhandled\<close> uses one unit. A function that runs out of fuel yields
  \<open>OutOfFuel\<close> together with the state reached so far; otherwise it yields \<open>Returns\<close>
  with what the code returns and leaves in the variables it got pointers to.

  \<open>response\<close> is a pointer to an owned buffer: \<open>None\<close> is the null pointer.
\<close>

datatype 'r outcome = Returns 'r | OutOfFuel

type_synonym reply = "uint8_t list option \<times> uint32_t"

function cmd_start ::
      "'t collaborators \<Rightarrow> nat \<Rightarrow> uint8_t list \<Rightarrow> uint32_t \<Rightarrow> 't server
        \<Rightarrow> unit outcome \<times> 't server"
  and cmd_process ::
      "'t collaborators \<Rightarrow> nat \<Rightarrow> uint8_t \<Rightarrow> uint8_t list \<Rightarrow> uint32_t \<Rightarrow> reply \<Rightarrow> 't server
        \<Rightarrow> (cmd_status \<times> reply) outcome \<times> 't server"
  and cmd_receive_one ::
      "'t collaborators \<Rightarrow> nat \<Rightarrow> reply \<Rightarrow> 't server
        \<Rightarrow> (cmd_status \<times> reply) outcome \<times> 't server"
  and cmd_receive_unhandled ::
      "'t collaborators \<Rightarrow> nat \<Rightarrow> 't server \<Rightarrow> (bool \<times> reply) outcome \<times> 't server"
where
  "cmd_start env fuel buf buflen s =
     (let s1 = log_info ''The gamemode has started.'' s;
          s2 = s1\<lparr>status_m := STATUS_SET (status_m s1) status_client_started\<rparr>;
          type = (if buflen = 0 then 0 else byte_at buf 0)
      in if type = 0 then (Returns (), s2)
         else if type = 1 then
           (if STATUS_ISSET (status_m s2) status_server_received_init
            then (Returns (), sampgdk_SendRconCommand ''gmx'' s2)
            else (Returns (), s2))
         else if type = 2 then
           (if STATUS_ISSET (status_m s2) status_server_received_init then
              let s3 = s2\<lparr>status_m := STATUS_SET (status_m s2) status_client_received_init\<rparr>;
                  (len, out) = callbacks_fill_call_buffer env (callbacks_m s3) None
                                 ''OnGameModeInit'' [0] LEN_NETBUF
              in if len = 0 then (Returns (), s3)
                 else
                   (case cmd_receive_unhandled env fuel
                           (communication_send env CMD_PUBLIC_CALL len out s3) of
                      (OutOfFuel, s4) \<Rightarrow> (OutOfFuel, s4)
                    | (Returns (received, response, len'), s4) \<Rightarrow>
                        if \<not> received \<or> response = None \<or> len' = 0
                        then (Returns (),
                              log_error ''Received no response to callback OnGameModeInit.'' s4)
                        else (Returns (), s4))
            else (Returns (), s2))
         else (Returns (), log_error ''Invalid game mode start mode'' s2))"
| "cmd_process env fuel cmd buf buflen (resp, resplen) s =
     (if cmd = CMD_PING then (Returns (handled, resp, resplen), cmd_ping env buf buflen s)
      else if cmd = CMD_PRINT then (Returns (handled, resp, resplen), cmd_print env buf buflen s)
      else if cmd = CMD_REGISTER_CALL
        then (Returns (handled, resp, resplen), cmd_register_call env buf buflen s)
      else if cmd = CMD_FIND_NATIVE
        then (Returns (handled, resp, resplen), cmd_find_native env buf buflen s)
      else if cmd = CMD_INVOKE_NATIVE
        then (Returns (handled, resp, resplen), cmd_invoke_native env buf buflen s)
      else if cmd = CMD_RECONNECT
        then (Returns (handled, resp, resplen), cmd_reconnect env buf buflen s)
      else if cmd = CMD_START then
        (case cmd_start env fuel buf buflen s of
           (OutOfFuel, s') \<Rightarrow> (OutOfFuel, s')
         | (Returns u, s') \<Rightarrow> (Returns (handled, resp, resplen), s'))
      else if buflen > 0
        then (Returns (unhandled, Some (take (unat buflen) buf), buflen), s)
      else (Returns (unhandled, resp, resplen), s))"
| "cmd_receive_one env fuel (response, len) s =
     (case connect env s of
        (False, s1) \<Rightarrow> (Returns (conn_dead, response, len), s1)
      | (True, s1) \<Rightarrow>
          (case comm_receive env LEN_NETBUF (communication_m s1) of
             ((stat, command, buf, command_len), t) \<Rightarrow>
               if stat = conn_dead \<or> stat = no_cmd
               then (Returns (stat, response, len), s1\<lparr>communication_m := t\<rparr>)
               else cmd_process env fuel command buf command_len (response, len)
                      (s1\<lparr>communication_m := t\<rparr>)))"
| "cmd_receive_unhandled env 0 s = (OutOfFuel, s)"
| "cmd_receive_unhandled env (Suc fuel) s =
     (case cmd_receive_one env fuel (None, 0) s of
        (OutOfFuel, s') \<Rightarrow> (OutOfFuel, s')
      | (Returns (stat, response, len), s') \<Rightarrow>
          if stat = handled \<or> stat = no_cmd then cmd_receive_unhandled env fuel s'
          else (Returns (stat = unhandled, response, len), s'))"
  by pat_completeness auto
termination
  by (relation "measure (\<lambda>x. case x of
        Inl (Inl (env, fuel, buf, buflen, s)) \<Rightarrow> 4 * fuel + 1
      | Inl (Inr (env, fuel, cmd, buf, buflen, r, s)) \<Rightarrow> 4 * fuel + 2
      | Inr (Inl (env, fuel, r, s)) \<Rightarrow> 4 * fuel + 3
      | Inr (Inr (env, fuel, s)) \<Rightarrow> 4 * fuel)") auto

declare cmd_start.simps [simp del] cmd_process.simps [simp del]
  cmd_receive_one.simps [simp del] cmd_receive_unhandled.simps [simp del]

subsection \<open>Forwarding a public call\<close>

text \<open>
  \<open>public_call\<close> in two parts. \<open>public_call_send\<close> is the function up to and
  including the send (lines 366 to 400): it yields \<open>False\<close> with the state where the
  function returns early, and \<open>True\<close> with the state in which the receive begins.
  \<open>amx\<close> and \<open>retval\<close> are pointers, \<open>None\<close> the null pointer; \<open>retval\<close> holds
  the value of the slot it points to, and \<open>public_call\<close> yields the slot as it is
  afterwards.
\<close>

definition public_call_send ::
  "'t collaborators \<Rightarrow> nat option \<Rightarrow> string \<Rightarrow> cell list \<Rightarrow> 't server \<Rightarrow> bool \<times> 't server" where
  "public_call_send env amx name params s =
     (let is_gmi = (name = ''OnGameModeInit'');
          is_gme = (\<not> is_gmi \<and> name = ''OnGameModeExit'');
          s1 = (if is_gmi
                then s\<lparr>status_m := STATUS_SET (status_m s) status_server_received_init\<rparr>
                else if is_gme
                then s\<lparr>status_m := STATUS_UNSET (status_m s) status_server_received_init\<rparr>
                else s)
      in if \<not> is_client_connected env s1 \<or> \<not> STATUS_ISSET (status_m s1) status_client_started
         then (False, s1)
         else
           (case (if is_gmi
                  then Some (s1\<lparr>status_m := STATUS_SET (status_m s1) status_client_received_init\<rparr>)
                  else if \<not> STATUS_ISSET (status_m s1) status_client_received_init
                  then None
                  else Some s1) of
              None \<Rightarrow> (False, s1)
            | Some s2 \<Rightarrow>
                let (len, out) = callbacks_fill_call_buffer env (callbacks_m s2) amx name params
                                   LEN_NETBUF
                in if len = 0 then (False, s2)
                   else (True, communication_send env CMD_PUBLIC_CALL len out s2)))"

definition public_call ::
  "'t collaborators \<Rightarrow> nat \<Rightarrow> nat option \<Rightarrow> string \<Rightarrow> cell list \<Rightarrow> cell option \<Rightarrow> 't server
    \<Rightarrow> cell option outcome \<times> 't server" where
  "public_call env fuel amx name params retval s =
     (case public_call_send env amx name params s of
        (False, s1) \<Rightarrow> (Returns retval, s1)
      | (True, s1) \<Rightarrow>
          (case cmd_receive_unhandled env fuel s1 of
             (OutOfFuel, s2) \<Rightarrow> (OutOfFuel, s2)
           | (Returns (received, response, len), s2) \<Rightarrow>
               (case response of
                  None \<Rightarrow>
                    (Returns retval,
                     log_error (''Received no response to callback '' @ name @ ''.'') s2)
                | Some r \<Rightarrow>
                    if \<not> received \<or> len = 0
                    then (Returns retval,
                          log_error (''Received no response to callback '' @ name @ ''.'') s2)
                    else if len \<ge> 5 \<and> byte_at r 0 \<noteq> 0 \<and> retval \<noteq> None
                    then (Returns (Some (uint32_at r 1)), s2)
                    else (Returns retval, s2))))"

subsection \<open>The tick\<close>

text \<open>
  The loop of \<open>tick\<close>. \<open>response\<close> is declared outside the loop and is not reset
  after \<open>delete[]\<close>, so it is carried from one pass to the next; \<open>len\<close> is not
  initialised and never read, the model starts it at 0. After a pass that got a reply,
  the next pass that gets none logs the error again and calls \<open>delete[]\<close> on the same
  pointer a second time, from where the behaviour of the code is undefined. The model
  has no heap and goes on as if the second \<open>delete[]\<close> did nothing: what it says about
  a tick after that point is about the model only. The heartbeat of a tick is sent
  before the loop begins.
\<close>

fun tick_loop ::
  "'t collaborators \<Rightarrow> nat \<Rightarrow> reply \<Rightarrow> 't server \<Rightarrow> unit outcome \<times> 't server" where
  "tick_loop env 0 rl s = (OutOfFuel, s)"
| "tick_loop env (Suc fuel) rl s =
     (case cmd_receive_one env fuel rl s of
        (OutOfFuel, s1) \<Rightarrow> (OutOfFuel, s1)
      | (Returns (stat, response, len), s1) \<Rightarrow>
          let s2 = (if response \<noteq> None then log_error ''Unhandled response in tick.'' s1
                    else s1)
          in if stat \<noteq> no_cmd \<and> stat \<noteq> conn_dead
             then tick_loop env fuel (response, len) s2
             else (Returns (), s2))"

definition tick_heartbeat :: "'t collaborators \<Rightarrow> 't server \<Rightarrow> 't server" where
  "tick_heartbeat env s =
     (if is_client_connected env s
         \<and> STATUS_ISSET (status_m s) (status_client_started OR status_client_received_init)
      then communication_send env CMD_TICK 0 [] s
      else s)"

definition tick :: "'t collaborators \<Rightarrow> nat \<Rightarrow> 't server \<Rightarrow> unit outcome \<times> 't server" where
  "tick env fuel s = tick_loop env fuel (None, 0) (tick_heartbeat env s)"

subsection \<open>Sequences of operations\<close>

text \<open>
  The operations that change the status, each with the fuel it is run with. The state
  after an operation is the state it returns in or, out of fuel, the state it reached.
\<close>

datatype operation =
    Connect
  | Disconnect "string option" bool
  | CmdStart "uint8_t list" uint32_t
  | CmdReconnect "uint8_t list" uint32_t
  | PublicCall "nat option" string "cell list" "cell option"
  | Tick

fun exec :: "'t collaborators \<Rightarrow> nat \<times> operation \<Rightarrow> 't server \<Rightarrow> 't server" where
  "exec env (fuel, Connect) s = snd (connect env s)"
| "exec env (fuel, Disconnect context expected) s = disconnect env context expected s"
| "exec env (fuel, CmdStart buf buflen) s = snd (cmd_start env fuel buf buflen s)"
| "exec env (fuel, CmdReconnect buf buflen) s = cmd_reconnect env buf buflen s"
| "exec env (fuel, PublicCall amx name params retval) s =
     snd (public_call env fuel amx name params retval s)"
| "exec env (fuel, Tick) s = snd (tick env fuel s)"

definition run :: "'t collaborators \<Rightarrow> 't server \<Rightarrow> (nat \<times> operation) list \<Rightarrow> 't server" where
  "run env s ops = foldl (\<lambda>s' fo. exec env fo s') s ops"

fun unexpected_disconnect :: "nat \<times> operation \<Rightarrow> bool" where
  "unexpected_disconnect (fuel, Disconnect context expected) = (\<not> expected)"
| "unexpected_disconnect (fuel, other) = False"

subsection \<open>The atomic steps of the receive functions\<close>

text \<open>
  Every state change of the receive functions is one of these steps; \<open>C\<close> is the set
  of the commands of the frames sent.
\<close>

inductive step :: "uint8_t set \<Rightarrow> 't server \<Rightarrow> 't server \<Rightarrow> bool"
  for C :: "uint8_t set" where
  step_communication: "step C s (s\<lparr>communication_m := t\<rparr>)"
| step_console: "step C s (s\<lparr>console := c\<rparr>)"
| step_natives: "step C s (s\<lparr>natives_m := n\<rparr>)"
| step_callbacks: "step C s (s\<lparr>callbacks_m := c\<rparr>)"
| step_sent: "cmd \<in> C
     \<Longrightarrow> step C s (s\<lparr>sent := sent s @ [(cmd, len, buf)],
                        sent_status := sent_status s @ [status_m s]\<rparr>)"
| step_set_connected:
    "step C s (s\<lparr>status_m := STATUS_SET (status_m s) status_client_connected\<rparr>)"
| step_unset_connected:
    "step C s (s\<lparr>status_m := STATUS_UNSET (status_m s) status_client_connected\<rparr>)"
| step_set_reconnecting:
    "step C s (s\<lparr>status_m := STATUS_SET (status_m s) status_client_reconnecting\<rparr>)"
| step_unset_reconnecting:
    "step C s (s\<lparr>status_m := STATUS_UNSET (status_m s) status_client_reconnecting\<rparr>)"
| step_set_started:
    "step C s (s\<lparr>status_m := STATUS_SET (status_m s) status_client_started\<rparr>)"
| step_set_received_init:
    "STATUS_ISSET (status_m s) status_client_started
     \<Longrightarrow> step C s (s\<lparr>status_m := STATUS_SET (status_m s) status_client_received_init\<rparr>)"

text \<open>The commands of the frames that the receive functions send.\<close>

definition receive_cmds :: "uint8_t set" where
  "receive_cmds = {CMD_PONG, CMD_RESPONSE, CMD_ANNOUNCE, CMD_PUBLIC_CALL}"

text \<open>The invariant of the status: \<open>client_received_init\<close> only with \<open>client_started\<close>.\<close>

definition init_implies_started :: "'t server \<Rightarrow> bool" where
  "init_implies_started s =
     (STATUS_ISSET (status_m s) status_client_received_init
      \<longrightarrow> STATUS_ISSET (status_m s) status_client_started)"

subsection \<open>A transport and registries to run the model on\<close>

text \<open>
  A transport for concrete runs: setting up and connecting always succeed, sending
  does nothing, and receiving takes the next frame of an inbox, or reports that there
  is no command. The callback registry keeps the buffers it is given and serialises a
  call to one byte when it holds an entry, to length zero when it is empty.
\<close>

record demo_transport =
  demo_ready :: bool
  demo_connected :: bool
  demo_inbox :: "(uint8_t \<times> uint8_t list) list"

definition demo_env :: "demo_transport collaborators" where
  "demo_env =
     \<lparr> comm_is_connected = demo_connected,
       comm_is_ready = demo_ready,
       comm_setup = (\<lambda>t. (True, t\<lparr>demo_ready := True\<rparr>)),
       comm_connect = (\<lambda>t. (True, t\<lparr>demo_connected := True\<rparr>)),
       comm_disconnect = (\<lambda>t. t\<lparr>demo_ready := False, demo_connected := False\<rparr>),
       comm_send = (\<lambda>cmd len buf t. t),
       comm_receive = (\<lambda>capacity t.
          case demo_inbox t of
            [] \<Rightarrow> ((no_cmd, 0, [], capacity), t)
          | (cmd, payload) # rest \<Rightarrow>
              ((handled, cmd, payload, of_nat (length payload)), t\<lparr>demo_inbox := rest\<rparr>)),
       natives_get_handle = (\<lambda>r name. (of_nat (length r), r @ [name])),
       natives_invoke = (\<lambda>r buf buflen capacity. (([], 0), r)),
       callbacks_register_buffer = (\<lambda>r buf. r @ [buf]),
       callbacks_fill_call_buffer = (\<lambda>r amx name params capacity.
          if r = [] then (0, []) else (1, [of_nat (length name)])),
       PLUGIN_PROTOCOL_VERSION = 1,
       PLUGIN_VERSION = 1 \<rparr>"

definition demo_transport0 :: demo_transport where
  "demo_transport0 = \<lparr> demo_ready = False, demo_connected = False, demo_inbox = [] \<rparr>"

text \<open>A connected, started server with the given inbox and callback registry.\<close>

definition demo_server :: "(uint8_t \<times> uint8_t list) list \<Rightarrow> registry \<Rightarrow> demo_transport server" where
  "demo_server inbox callbacks =
     \<lparr> status_m = STATUS_SET (STATUS_SET status_none status_client_connected)
                    status_client_started,
       communication_m = \<lparr> demo_ready = True, demo_connected = True, demo_inbox = inbox \<rparr>,
       natives_m = [], callbacks_m = callbacks, sent = [], sent_status = [],
       console = [] \<rparr>"




text \<open>
  A transport that hands over at least as many bytes as it reports: the length it
  reports with a command is within the bytes it wrote to the buffer.
\<close>

definition receive_fits :: "'t collaborators \<Rightarrow> bool" where
  "receive_fits env =
     (\<forall>capacity t.
        case comm_receive env capacity t of
          ((stat, cmd, buf, n), t') \<Rightarrow> stat = conn_dead \<or> stat = no_cmd \<or> unat n \<le> length buf)"

text \<open>A demo state in which the client has received init, with a ping waiting.\<close>

definition demo_initialised :: "demo_transport server" where
  "demo_initialised =
     (demo_server [(0x01, [])] [])
       \<lparr>status_m := STATUS_SET (status_m (demo_server [(0x01, [])] []))
                      status_client_received_init\<rparr>"


section \<open>Lemmas\<close>

lemmas CMD_defs =
  CMD_PING_def CMD_PRINT_def CMD_RESPONSE_def CMD_RECONNECT_def CMD_REGISTER_CALL_def
  CMD_FIND_NATIVE_def CMD_INVOKE_NATIVE_def CMD_START_def CMD_TICK_def CMD_PONG_def
  CMD_PUBLIC_CALL_def CMD_REPLY_def CMD_ANNOUNCE_def

lemmas status_defs =
  status_none_def status_client_connected_def status_client_started_def
  status_client_received_init_def status_server_received_init_def
  status_client_reconnecting_def

subsection \<open>Facts about the status macros\<close>

lemma STATUS_ISSET_iff: "STATUS_ISSET st v \<longleftrightarrow> (\<forall>n. bit v n \<longrightarrow> bit st n)"
proof
  assume "STATUS_ISSET st v"
  then have e: "st AND v = v" by (simp add: STATUS_ISSET_def)
  show "\<forall>n. bit v n \<longrightarrow> bit st n"
  proof (intro allI impI)
    fix n assume "bit v n"
    then have "bit (st AND v) n" using e by simp
    then show "bit st n" by (simp add: bit_and_iff)
  qed
next
  assume a: "\<forall>n. bit v n \<longrightarrow> bit st n"
  have "st AND v = v"
    by (rule bit_eqI) (use a in \<open>auto simp: bit_and_iff\<close>)
  then show "STATUS_ISSET st v" by (simp add: STATUS_ISSET_def)
qed

lemma flags_disjoint_iff: "v AND w = 0 \<longleftrightarrow> (\<forall>n. \<not> (bit v n \<and> bit w n))" for v w :: status
proof
  assume e: "v AND w = 0"
  show "\<forall>n. \<not> (bit v n \<and> bit w n)"
  proof
    fix n
    have "\<not> bit (v AND w) n" using e by simp
    then show "\<not> (bit v n \<and> bit w n)" by (simp add: bit_and_iff)
  qed
next
  assume a: "\<forall>n. \<not> (bit v n \<and> bit w n)"
  show "v AND w = 0" by (rule bit_eqI) (use a in \<open>auto simp: bit_and_iff\<close>)
qed

lemma ISSET_SET_same: "STATUS_ISSET (STATUS_SET st v) v"
  by (simp add: STATUS_ISSET_iff STATUS_SET_def bit_or_iff)

lemma ISSET_SET_mono: "STATUS_ISSET st w \<Longrightarrow> STATUS_ISSET (STATUS_SET st v) w"
  by (simp add: STATUS_ISSET_iff STATUS_SET_def bit_or_iff)

lemma ISSET_SET_other: "v AND w = 0 \<Longrightarrow> STATUS_ISSET (STATUS_SET st v) w = STATUS_ISSET st w"
  unfolding STATUS_ISSET_iff flags_disjoint_iff STATUS_SET_def by (auto simp: bit_or_iff)

lemma ISSET_UNSET_other: "v AND w = 0 \<Longrightarrow> STATUS_ISSET (STATUS_UNSET st v) w = STATUS_ISSET st w"
  unfolding STATUS_ISSET_iff flags_disjoint_iff STATUS_UNSET_def
  by (auto simp: bit_and_iff bit_not_iff dest: bit_imp_le_length)

lemma ISSET_UNSET_same: "v \<noteq> 0 \<Longrightarrow> \<not> STATUS_ISSET (STATUS_UNSET st v) v"
proof -
  assume "v \<noteq> 0"
  then obtain n where "bit v n" by (auto simp: bit_eq_iff)
  then show ?thesis
    unfolding STATUS_ISSET_iff STATUS_UNSET_def by (auto simp: bit_and_iff bit_not_iff)
qed

lemma ISSET_OR: "STATUS_ISSET st (v OR w) \<longleftrightarrow> STATUS_ISSET st v \<and> STATUS_ISSET st w"
  unfolding STATUS_ISSET_iff by (auto simp: bit_or_iff)

lemma flags_distinct [simp]:
  "status_client_connected AND status_client_started = 0"
  "status_client_connected AND status_client_received_init = 0"
  "status_client_connected AND status_server_received_init = 0"
  "status_client_connected AND status_client_reconnecting = 0"
  "status_client_started AND status_client_connected = 0"
  "status_client_started AND status_client_received_init = 0"
  "status_client_started AND status_server_received_init = 0"
  "status_client_started AND status_client_reconnecting = 0"
  "status_client_received_init AND status_client_connected = 0"
  "status_client_received_init AND status_client_started = 0"
  "status_client_received_init AND status_server_received_init = 0"
  "status_client_received_init AND status_client_reconnecting = 0"
  "status_server_received_init AND status_client_connected = 0"
  "status_server_received_init AND status_client_started = 0"
  "status_server_received_init AND status_client_received_init = 0"
  "status_server_received_init AND status_client_reconnecting = 0"
  "status_client_reconnecting AND status_client_connected = 0"
  "status_client_reconnecting AND status_client_started = 0"
  "status_client_reconnecting AND status_client_received_init = 0"
  "status_client_reconnecting AND status_server_received_init = 0"
  by (simp_all add: status_defs)

lemma flags_nonzero [simp]:
  "status_client_connected \<noteq> 0" "status_client_started \<noteq> 0"
  "status_client_received_init \<noteq> 0" "status_server_received_init \<noteq> 0"
  "status_client_reconnecting \<noteq> 0"
  by (simp_all add: status_defs)

lemmas ISSET_simps = ISSET_SET_same ISSET_SET_other ISSET_UNSET_other ISSET_UNSET_same ISSET_OR

subsection \<open>The receive functions as sequences of atomic steps\<close>

lemma steps_then: "rtranclp (step C) s x \<Longrightarrow> step C x y \<Longrightarrow> rtranclp (step C) s y"
  by (rule rtranclp.rtrancl_into_rtrancl)

lemma steps_log_info: "rtranclp (step C) s x \<Longrightarrow> rtranclp (step C) s (log_info m x)"
  unfolding log_info_def by (erule steps_then) (rule step_console)

lemma steps_log_error: "rtranclp (step C) s x \<Longrightarrow> rtranclp (step C) s (log_error m x)"
  unfolding log_error_def by (erule steps_then) (rule step_console)

lemma steps_print: "rtranclp (step C) s x \<Longrightarrow> rtranclp (step C) s (print m x)"
  unfolding print_def by (erule steps_then) (rule step_console)

lemma steps_rcon: "rtranclp (step C) s x \<Longrightarrow> rtranclp (step C) s (sampgdk_SendRconCommand m x)"
  unfolding sampgdk_SendRconCommand_def by (erule steps_then) (rule step_console)

lemma steps_send:
  assumes "rtranclp (step C) s x" and "cmd \<in> C"
  shows "rtranclp (step C) s (communication_send env cmd len buf x)"
proof -
  let ?x1 = "x\<lparr>communication_m := comm_send env cmd len buf (communication_m x)\<rparr>"
  have "rtranclp (step C) s ?x1" by (rule steps_then[OF assms(1) step_communication])
  then have "rtranclp (step C) s (?x1\<lparr>sent := sent ?x1 @ [(cmd, len, buf)],
                                        sent_status := sent_status ?x1 @ [status_m ?x1]\<rparr>)"
    by (rule steps_then) (rule step_sent[OF assms(2)])
  then show ?thesis by (simp add: communication_send_def)
qed

lemma steps_cmd_ping:
  "CMD_PONG \<in> C \<Longrightarrow> rtranclp (step C) s x \<Longrightarrow> rtranclp (step C) s (cmd_ping env buf buflen x)"
  unfolding cmd_ping_def by (rule steps_send)

lemma steps_cmd_print: "rtranclp (step C) s x \<Longrightarrow> rtranclp (step C) s (cmd_print env buf buflen x)"
  unfolding cmd_print_def by (rule steps_print)

lemma steps_cmd_register_call:
  "rtranclp (step C) s x \<Longrightarrow> rtranclp (step C) s (cmd_register_call env buf buflen x)"
  unfolding cmd_register_call_def by (erule steps_then) (rule step_callbacks)

lemma steps_cmd_find_native:
  assumes "CMD_RESPONSE \<in> C" and "rtranclp (step C) s x"
  shows "rtranclp (step C) s (cmd_find_native env buf buflen x)"
proof -
  obtain h n where g: "natives_get_handle env (natives_m x) buf = (h, n)" by fastforce
  have "rtranclp (step C) s
          (communication_send env CMD_RESPONSE 4 (bytes_of_uint32 h) (x\<lparr>natives_m := n\<rparr>))"
    by (rule steps_send[OF steps_then[OF assms(2) step_natives] assms(1)])
  then show ?thesis by (simp add: cmd_find_native_def g)
qed

lemma steps_cmd_invoke_native:
  assumes "CMD_RESPONSE \<in> C" and "rtranclp (step C) s x"
  shows "rtranclp (step C) s (cmd_invoke_native env buf buflen x)"
proof -
  obtain out txlen n where g:
    "natives_invoke env (natives_m x) buf buflen LEN_NETBUF = ((out, txlen), n)"
    by (metis prod.exhaust)
  have "rtranclp (step C) s
          (communication_send env CMD_RESPONSE txlen out (x\<lparr>natives_m := n\<rparr>))"
    by (rule steps_send[OF steps_then[OF assms(2) step_natives] assms(1)])
  then show ?thesis by (simp add: cmd_invoke_native_def g)
qed

lemma steps_cmd_send_announce:
  "CMD_ANNOUNCE \<in> C \<Longrightarrow> rtranclp (step C) s x \<Longrightarrow> rtranclp (step C) s (cmd_send_announce env x)"
  unfolding cmd_send_announce_def by (intro steps_log_info steps_send)

lemma steps_connect:
  assumes "rtranclp (step C) s x" and ann: "CMD_ANNOUNCE \<in> C"
  shows "rtranclp (step C) s (snd (connect env x))"
proof (cases "comm_is_connected env (communication_m x)")
  case True
  then show ?thesis using assms(1) by (simp add: connect_def)
next
  case nc: False
  obtain ready t1 where rt:
    "(if \<not> comm_is_ready env (communication_m x) then comm_setup env (communication_m x)
      else (True, communication_m x)) = (ready, t1)"
    by fastforce
  show ?thesis
  proof (cases ready)
    case False
    have "rtranclp (step C) s (x\<lparr>communication_m := t1\<rparr>)"
      by (rule steps_then[OF assms(1) step_communication])
    then show ?thesis using nc rt False by (simp add: connect_def)
  next
    case ready: True
    obtain connected t2 where ct: "comm_connect env t1 = (connected, t2)"
      by fastforce
    let ?s2 = "x\<lparr>communication_m := t2\<rparr>"
    have s2: "rtranclp (step C) s ?s2"
      by (rule steps_then[OF assms(1) step_communication])
    show ?thesis
    proof (cases connected)
      case False
      then show ?thesis using nc rt ready ct s2 by (simp add: connect_def)
    next
      case True
      let ?s3 = "?s2\<lparr>status_m := STATUS_SET (status_m ?s2) status_client_connected\<rparr>"
      let ?s4 = "if STATUS_ISSET (status_m ?s3) status_client_reconnecting
                 then log_info ''Client reconnected.'' ?s3
                 else cmd_send_announce env (log_info ''Connected to client.'' ?s3)"
      have s3: "rtranclp (step C) s ?s3"
        by (rule steps_then[OF s2 step_set_connected])
      have s4: "rtranclp (step C) s ?s4"
      proof (cases "STATUS_ISSET (status_m ?s3) status_client_reconnecting")
        case True
        have "rtranclp (step C) s (log_info ''Client reconnected.'' ?s3)"
          by (rule steps_log_info[OF s3])
        then show ?thesis using True by (simp only: if_True)
      next
        case False
        have "rtranclp (step C) s (cmd_send_announce env (log_info ''Connected to client.'' ?s3))"
          by (rule steps_cmd_send_announce[OF ann steps_log_info[OF s3]])
        then show ?thesis using False by (simp only: if_False)
      qed
      have "rtranclp (step C) s
              (?s4\<lparr>status_m := STATUS_UNSET (status_m ?s4) status_client_reconnecting\<rparr>)"
        by (rule steps_then[OF s4 step_unset_reconnecting])
      then show ?thesis using nc rt ready ct True
        by (cases "STATUS_ISSET (status_m ?s3) status_client_reconnecting")
           (simp_all add: connect_def Let_def)
    qed
  qed
qed

lemma steps_disconnect_expected:
  assumes "rtranclp (step C) s x"
  shows "rtranclp (step C) s (disconnect env context True x)"
proof (cases "is_client_connected env x")
  case False
  then show ?thesis using assms by (simp add: disconnect_def)
next
  case True
  let ?s1 = "log_info ''Client disconnected.'' x"
  let ?s2 = "?s1\<lparr>communication_m := comm_disconnect env (communication_m ?s1)\<rparr>"
  let ?s3 = "?s2\<lparr>communication_m := snd (comm_setup env (communication_m ?s2))\<rparr>"
  have "rtranclp (step C) s ?s1" by (rule steps_log_info[OF assms])
  then have "rtranclp (step C) s ?s2" by (rule steps_then) (rule step_communication)
  then have "rtranclp (step C) s ?s3" by (rule steps_then) (rule step_communication)
  then have "rtranclp (step C) s
      (?s3\<lparr>status_m := STATUS_UNSET (status_m ?s3) status_client_connected\<rparr>)"
    by (rule steps_then) (rule step_unset_connected)
  then show ?thesis using True by (simp add: disconnect_def Let_def)
qed

lemma steps_cmd_reconnect:
  "rtranclp (step C) s x \<Longrightarrow> rtranclp (step C) s (cmd_reconnect env buf buflen x)"
  unfolding cmd_reconnect_def Let_def
  by (intro steps_disconnect_expected steps_then[OF _ step_set_reconnecting] steps_log_info)

lemma steps_cmd_start:
  assumes drain: "\<And>x. rtranclp (step C) x (snd (cmd_receive_unhandled env fuel x))"
    and pc: "CMD_PUBLIC_CALL \<in> C"
  shows "rtranclp (step C) s (snd (cmd_start env fuel buf buflen s))"
proof -
  let ?s1 = "log_info ''The gamemode has started.'' s"
  let ?s2 = "?s1\<lparr>status_m := STATUS_SET (status_m ?s1) status_client_started\<rparr>"
  let ?type = "if buflen = 0 then 0 else byte_at buf 0"
  have s2: "rtranclp (step C) s ?s2"
    by (rule steps_then[OF steps_log_info[OF rtranclp.rtrancl_refl] step_set_started])
  consider (none) "?type = 0" | (gmx) "?type = 1" | (fake) "?type = 2"
    | (other) "?type \<noteq> 0" "?type \<noteq> 1" "?type \<noteq> 2"
    by blast
  then show ?thesis
  proof cases
    case none
    then show ?thesis using s2 by (simp add: cmd_start.simps Let_def)
  next
    case gmx
    have "rtranclp (step C) s (sampgdk_SendRconCommand ''gmx'' ?s2)"
      by (rule steps_rcon[OF s2])
    then show ?thesis using gmx s2 by (simp add: cmd_start.simps Let_def)
  next
    case other
    have "rtranclp (step C) s (log_error ''Invalid game mode start mode'' ?s2)"
      by (rule steps_log_error[OF s2])
    then show ?thesis using other by (simp add: cmd_start.simps Let_def)
  next
    case fake
    show ?thesis
    proof (cases "STATUS_ISSET (status_m ?s2) status_server_received_init")
      case False
      then show ?thesis using fake s2 by (simp add: cmd_start.simps Let_def)
    next
      case init: True
      let ?s3 = "?s2\<lparr>status_m := STATUS_SET (status_m ?s2) status_client_received_init\<rparr>"
      have "STATUS_ISSET (status_m ?s2) status_client_started"
        by (simp add: ISSET_SET_same)
      then have s3: "rtranclp (step C) s ?s3"
        by (rule steps_then[OF s2 step_set_received_init])
      obtain len out where fill:
        "callbacks_fill_call_buffer env (callbacks_m ?s3) None ''OnGameModeInit'' [0] LEN_NETBUF
           = (len, out)"
        by fastforce
      show ?thesis
      proof (cases "len = 0")
        case True
        then show ?thesis using fake init fill s3 by (simp add: cmd_start.simps Let_def)
      next
        case False
        let ?s4 = "communication_send env CMD_PUBLIC_CALL len out ?s3"
        obtain r s5 where d: "cmd_receive_unhandled env fuel ?s4 = (r, s5)"
          by fastforce
        have "rtranclp (step C) s ?s4" by (rule steps_send[OF s3 pc])
        moreover have "rtranclp (step C) ?s4 s5" using drain[of ?s4] d by simp
        ultimately have s5: "rtranclp (step C) s s5" by (rule rtranclp_trans)
        have e: "rtranclp (step C) s
                   (log_error ''Received no response to callback OnGameModeInit.'' s5)"
          by (rule steps_log_error[OF s5])
        have "snd (cmd_start env fuel buf buflen s) = s5
            \<or> snd (cmd_start env fuel buf buflen s)
                = log_error ''Received no response to callback OnGameModeInit.'' s5"
          using fake init fill False d
          by (simp add: cmd_start.simps Let_def split: outcome.splits prod.splits)
        then show ?thesis using s5 e by auto
      qed
    qed
  qed
qed

lemma steps_cmd_process:
  assumes start: "\<And>buf buflen x. rtranclp (step C) x (snd (cmd_start env fuel buf buflen x))"
    and C: "CMD_PONG \<in> C" "CMD_RESPONSE \<in> C"
  shows "rtranclp (step C) s (snd (cmd_process env fuel cmd buf buflen rl s))"
proof -
  obtain resp resplen where rl: "rl = (resp, resplen)" by (cases rl)
  have "snd (case cmd_start env fuel buf buflen s of
               (OutOfFuel, s') \<Rightarrow> (OutOfFuel, s')
             | (Returns u, s') \<Rightarrow> (Returns (handled, resp, resplen), s'))
        = snd (cmd_start env fuel buf buflen s)"
    by (simp split: prod.splits outcome.splits)
  then show ?thesis
    unfolding rl
    using start[of s buf buflen]
      steps_cmd_ping[OF C(1) rtranclp.rtrancl_refl, of s env buf buflen]
      steps_cmd_print[OF rtranclp.rtrancl_refl, of C s env buf buflen]
      steps_cmd_register_call[OF rtranclp.rtrancl_refl, of C s env buf buflen]
      steps_cmd_find_native[OF C(2) rtranclp.rtrancl_refl, of s env buf buflen]
      steps_cmd_invoke_native[OF C(2) rtranclp.rtrancl_refl, of s env buf buflen]
      steps_cmd_reconnect[OF rtranclp.rtrancl_refl, of C s env buf buflen]
    by (simp add: cmd_process.simps)
qed

lemma steps_cmd_receive_one:
  assumes process:
    "\<And>cmd buf buflen rl x. rtranclp (step C) x (snd (cmd_process env fuel cmd buf buflen rl x))"
    and ann: "CMD_ANNOUNCE \<in> C"
  shows "rtranclp (step C) s (snd (cmd_receive_one env fuel rl s))"
proof -
  obtain response len where rl: "rl = (response, len)" by (cases rl)
  obtain ok s1 where c: "connect env s = (ok, s1)" by fastforce
  have s1: "rtranclp (step C) s s1"
    using steps_connect[OF rtranclp.rtrancl_refl ann, of s env] c by simp
  show ?thesis
  proof (cases ok)
    case False
    then show ?thesis using c s1 by (simp add: rl cmd_receive_one.simps)
  next
    case True
    obtain stat command buf command_len t where rc:
      "comm_receive env LEN_NETBUF (communication_m s1) = ((stat, command, buf, command_len), t)"
      by (metis prod.exhaust)
    let ?s2 = "s1\<lparr>communication_m := t\<rparr>"
    have s2: "rtranclp (step C) s ?s2" by (rule steps_then[OF s1 step_communication])
    have "rtranclp (step C) ?s2
            (snd (cmd_process env fuel command buf command_len (response, len) ?s2))"
      by (rule process)
    with s2 have "rtranclp (step C) s
            (snd (cmd_process env fuel command buf command_len (response, len) ?s2))"
      by (rule rtranclp_trans)
    then show ?thesis using c True rc s2 by (simp add: rl cmd_receive_one.simps)
  qed
qed

lemma steps_cmd_receive_unhandled_Suc:
  assumes one: "\<And>rl x. rtranclp (step C) x (snd (cmd_receive_one env fuel rl x))"
    and drain: "\<And>x. rtranclp (step C) x (snd (cmd_receive_unhandled env fuel x))"
  shows "rtranclp (step C) s (snd (cmd_receive_unhandled env (Suc fuel) s))"
proof -
  obtain r s1 where p: "cmd_receive_one env fuel (None, 0) s = (r, s1)" by fastforce
  have s1: "rtranclp (step C) s s1" using one[of s "(None, 0)"] p by simp
  have "rtranclp (step C) s (snd (cmd_receive_unhandled env fuel s1))"
    by (rule rtranclp_trans[OF s1 drain])
  then show ?thesis using p s1
    by (simp add: cmd_receive_unhandled.simps split: outcome.splits prod.splits)
qed

lemma steps_cmd_receive_unhandled:
  assumes C: "CMD_PONG \<in> C" "CMD_RESPONSE \<in> C" "CMD_ANNOUNCE \<in> C" "CMD_PUBLIC_CALL \<in> C"
  shows "rtranclp (step C) s (snd (cmd_receive_unhandled env fuel s))"
proof (induction fuel arbitrary: s)
  case 0
  show ?case by (simp add: cmd_receive_unhandled.simps)
next
  case (Suc fuel)
  show ?case
    by (intro steps_cmd_receive_unhandled_Suc steps_cmd_receive_one steps_cmd_process
        steps_cmd_start Suc.IH C)
qed

lemma steps_receive:
  assumes C: "CMD_PONG \<in> C" "CMD_RESPONSE \<in> C" "CMD_ANNOUNCE \<in> C" "CMD_PUBLIC_CALL \<in> C"
  shows "rtranclp (step C) s (snd (cmd_start env fuel buf buflen s))"
    and "rtranclp (step C) s (snd (cmd_process env fuel cmd buf buflen rl s))"
    and "rtranclp (step C) s (snd (cmd_receive_one env fuel rl s))"
  by (intro steps_cmd_receive_one steps_cmd_process steps_cmd_start
      steps_cmd_receive_unhandled C)+

lemma steps_tick_loop:
  assumes C: "CMD_PONG \<in> C" "CMD_RESPONSE \<in> C" "CMD_ANNOUNCE \<in> C" "CMD_PUBLIC_CALL \<in> C"
  shows "rtranclp (step C) s (snd (tick_loop env fuel rl s))"
proof (induction fuel arbitrary: rl s)
  case 0
  show ?case by simp
next
  case (Suc fuel)
  obtain r s1 where p: "cmd_receive_one env fuel rl s = (r, s1)" by fastforce
  have s1: "rtranclp (step C) s s1" using steps_receive(3)[OF C, of s env fuel rl] p by simp
  let ?e = "log_error ''Unhandled response in tick.'' s1"
  have e: "rtranclp (step C) s ?e" by (rule steps_log_error[OF s1])
  have a: "rtranclp (step C) s (snd (tick_loop env fuel rl' s1))" for rl'
    by (rule rtranclp_trans[OF s1 Suc.IH])
  have b: "rtranclp (step C) s (snd (tick_loop env fuel rl' ?e))" for rl'
    by (rule rtranclp_trans[OF e Suc.IH])
  show ?case using p s1 e a b
    by (simp add: Let_def split: outcome.splits prod.splits)
qed


subsection \<open>What a sequence of steps keeps\<close>

lemma step_sent:
  "step C s s' \<Longrightarrow> \<exists>rest. sent s' = sent s @ rest \<and> fst ` set rest \<subseteq> C"
  by (induction rule: step.induct) auto

lemma steps_sent:
  "rtranclp (step C) s s' \<Longrightarrow> \<exists>rest. sent s' = sent s @ rest \<and> fst ` set rest \<subseteq> C"
proof (induction rule: rtranclp_induct)
  case base
  show ?case by simp
next
  case (step y z)
  from step.IH obtain r1 where r1: "sent y = sent s @ r1" "fst ` set r1 \<subseteq> C" by blast
  from step_sent[OF step.hyps(2)] obtain r2 where r2: "sent z = sent y @ r2" "fst ` set r2 \<subseteq> C"
    by blast
  have "sent z = sent s @ (r1 @ r2)" using r1 r2 by simp
  moreover have "fst ` set (r1 @ r2) \<subseteq> C" using r1 r2 by auto
  ultimately show ?case by blast
qed

lemma step_received_init:
  "step C s s' \<Longrightarrow> STATUS_ISSET (status_m s) status_client_received_init
     \<Longrightarrow> STATUS_ISSET (status_m s') status_client_received_init"
  by (induction rule: step.induct) (simp_all add: ISSET_simps ISSET_SET_mono)

lemma steps_received_init:
  "rtranclp (step C) s s' \<Longrightarrow> STATUS_ISSET (status_m s) status_client_received_init
     \<Longrightarrow> STATUS_ISSET (status_m s') status_client_received_init"
  by (induction rule: rtranclp_induct) (auto dest: step_received_init)

lemma step_init_implies_started:
  "step C s s' \<Longrightarrow> init_implies_started s \<Longrightarrow> init_implies_started s'"
  by (induction rule: step.induct) (simp_all add: init_implies_started_def ISSET_simps ISSET_SET_mono)

lemma steps_init_implies_started:
  "rtranclp (step C) s s' \<Longrightarrow> init_implies_started s \<Longrightarrow> init_implies_started s'"
  by (induction rule: rtranclp_induct) (auto dest: step_init_implies_started)

lemma receive_cmds_mem:
  "CMD_PONG \<in> receive_cmds" "CMD_RESPONSE \<in> receive_cmds"
  "CMD_ANNOUNCE \<in> receive_cmds" "CMD_PUBLIC_CALL \<in> receive_cmds"
  by (simp_all add: receive_cmds_def)

lemma CMD_TICK_notin_receive_cmds: "CMD_TICK \<notin> receive_cmds"
  by (simp add: receive_cmds_def CMD_defs)

lemma status_simps [simp]:
  "status_m (log_info m s) = status_m s"
  "status_m (log_error m s) = status_m s"
  "status_m (print b s) = status_m s"
  "status_m (sampgdk_SendRconCommand c s) = status_m s"
  "status_m (communication_send env cmd len buf s) = status_m s"
  by (simp_all add: log_info_def log_error_def print_def sampgdk_SendRconCommand_def
      communication_send_def)

lemma vlog_short: "length msg < LEN_PRINT_BUFFER \<Longrightarrow> vlog msg = msg"
  by (simp add: vlog_def)

lemma sent_status_simps [simp]:
  "sent_status (log_info m s) = sent_status s"
  "sent_status (log_error m s) = sent_status s"
  "sent_status (print b s) = sent_status s"
  "sent_status (sampgdk_SendRconCommand c s) = sent_status s"
  "sent_status (communication_send env cmd len buf s) = sent_status s @ [status_m s]"
  by (simp_all add: log_info_def log_error_def print_def sampgdk_SendRconCommand_def
      communication_send_def)

lemma sent_simps [simp]:
  "sent (log_info m s) = sent s"
  "sent (log_error m s) = sent s"
  "sent (print b s) = sent s"
  "sent (sampgdk_SendRconCommand c s) = sent s"
  "sent (communication_send env cmd len buf s) = sent s @ [(cmd, len, buf)]"
  by (simp_all add: log_info_def log_error_def print_def sampgdk_SendRconCommand_def
      communication_send_def)

lemma is_client_connected_status:
  "is_client_connected env (s\<lparr>status_m := st\<rparr>)
     = (comm_is_connected env (communication_m s) \<and> STATUS_ISSET st status_client_connected)"
  by (simp add: is_client_connected_def)

text \<open>The state in which \<open>public_call\<close> stops or starts to receive.\<close>

lemma public_call_send_cases:
  obtains
    (skip) st where "public_call_send env amx name params s = (False, s\<lparr>status_m := st\<rparr>)"
      and "st = status_m s \<or> st = STATUS_SET (status_m s) status_server_received_init
           \<or> st = STATUS_UNSET (status_m s) status_server_received_init"
  | (init) st where "name = ''OnGameModeInit''"
      and "st = STATUS_SET (status_m s) status_server_received_init"
      and "STATUS_ISSET st status_client_started"
      and "fst (callbacks_fill_call_buffer env (callbacks_m s) amx name params LEN_NETBUF) = 0"
      and "public_call_send env amx name params s
            = (False, s\<lparr>status_m := STATUS_SET st status_client_received_init\<rparr>)"
  | (sent_init) st len out where "name = ''OnGameModeInit''"
      and "st = STATUS_SET (status_m s) status_server_received_init"
      and "STATUS_ISSET st status_client_started"
      and "callbacks_fill_call_buffer env (callbacks_m s) amx name params LEN_NETBUF = (len, out)"
      and "len \<noteq> 0"
      and "public_call_send env amx name params s
            = (True, communication_send env CMD_PUBLIC_CALL len out
                 (s\<lparr>status_m := STATUS_SET st status_client_received_init\<rparr>))"
  | (sent_other) st len out where "name \<noteq> ''OnGameModeInit''"
      and "st = status_m s \<or> st = STATUS_UNSET (status_m s) status_server_received_init"
      and "STATUS_ISSET st status_client_started"
      and "STATUS_ISSET st status_client_received_init"
      and "len \<noteq> 0"
      and "public_call_send env amx name params s
            = (True, communication_send env CMD_PUBLIC_CALL len out (s\<lparr>status_m := st\<rparr>))"
proof -
  obtain len out where fill:
    "callbacks_fill_call_buffer env (callbacks_m s) amx name params LEN_NETBUF = (len, out)"
    by fastforce
  show ?thesis
  proof (cases "name = ''OnGameModeInit''")
    case gmi: True
    let ?st = "STATUS_SET (status_m s) status_server_received_init"
    show ?thesis
    proof (cases "is_client_connected env (s\<lparr>status_m := ?st\<rparr>)
                  \<and> STATUS_ISSET ?st status_client_started")
      case False
      then have "public_call_send env amx name params s = (False, s\<lparr>status_m := ?st\<rparr>)"
        using gmi by (auto simp: public_call_send_def Let_def)
      then show ?thesis by (rule skip) simp
    next
      case True
      show ?thesis
      proof (cases "len = 0")
        case z: True
        show ?thesis
          by (rule init[of ?st]) (use gmi True z fill in \<open>simp_all add: public_call_send_def Let_def\<close>)
      next
        case nz: False
        show ?thesis
          by (rule sent_init[of ?st len out])
             (use gmi True nz fill in \<open>simp_all add: public_call_send_def Let_def\<close>)
      qed
    qed
  next
    case other: False
    let ?st = "if name = ''OnGameModeExit''
               then STATUS_UNSET (status_m s) status_server_received_init else status_m s"
    have st: "?st = status_m s \<or> ?st = STATUS_UNSET (status_m s) status_server_received_init"
      by simp
    show ?thesis
    proof (cases "is_client_connected env (s\<lparr>status_m := ?st\<rparr>)
                  \<and> STATUS_ISSET ?st status_client_started
                  \<and> STATUS_ISSET ?st status_client_received_init \<and> len \<noteq> 0")
      case False
      then have e: "public_call_send env amx name params s = (False, s\<lparr>status_m := ?st\<rparr>)"
        using other fill by (auto simp: public_call_send_def Let_def)
      show ?thesis by (rule skip[OF e]) (use st in blast)
    next
      case True
      have e: "public_call_send env amx name params s
            = (True, communication_send env CMD_PUBLIC_CALL len out (s\<lparr>status_m := ?st\<rparr>))"
        using other fill True by (auto simp: public_call_send_def Let_def)
      show ?thesis
        by (rule sent_other[OF other st _ _ _ e]) (use True in blast)+
    qed
  qed
qed

lemma public_call_steps:
  "rtranclp (step receive_cmds) (snd (public_call_send env amx name params s))
     (snd (public_call env fuel amx name params retval s))"
proof -
  obtain b s1 where p: "public_call_send env amx name params s = (b, s1)" by fastforce
  show ?thesis
  proof (cases b)
    case False
    then show ?thesis using p by (simp add: public_call_def)
  next
    case True
    obtain r s2 where d: "cmd_receive_unhandled env fuel s1 = (r, s2)" by fastforce
    have s2: "rtranclp (step receive_cmds) s1 s2"
      using steps_cmd_receive_unhandled[OF receive_cmds_mem, of s1 env fuel] d by simp
    have e: "rtranclp (step receive_cmds) s1 (log_error m s2)" for m
      by (rule steps_log_error[OF s2])
    show ?thesis using p True d s2 e
      by (simp add: public_call_def split: outcome.splits prod.splits option.splits)
  qed
qed

lemma public_call_send_init_implies_started:
  assumes "init_implies_started s"
  shows "init_implies_started (snd (public_call_send env amx name params s))"
  using assms
  by (cases rule: public_call_send_cases[of env amx name params s])
     (auto simp: init_implies_started_def ISSET_simps ISSET_SET_mono)

lemma public_call_send_received_init:
  assumes "STATUS_ISSET (status_m s) status_client_received_init"
  shows "STATUS_ISSET (status_m (snd (public_call_send env amx name params s)))
           status_client_received_init"
  using assms
  by (cases rule: public_call_send_cases[of env amx name params s])
     (auto simp: ISSET_simps ISSET_SET_mono)

lemma tick_steps:
  "rtranclp (step receive_cmds) (tick_heartbeat env s) (snd (tick env fuel s))"
  unfolding tick_def by (rule steps_tick_loop[OF receive_cmds_mem])

lemma status_tick_heartbeat [simp]: "status_m (tick_heartbeat env s) = status_m s"
  by (simp add: tick_heartbeat_def)

text \<open>
  Every operation keeps \<open>client_received_init\<close> within \<open>client_started\<close>, but for
  one: the unexpected disconnect of a connected client that has received init.
\<close>

lemma exec_init_implies_started:
  assumes "\<not> (unexpected_disconnect fo \<and> is_client_connected env s
              \<and> STATUS_ISSET (status_m s) status_client_received_init)"
    and "init_implies_started s"
  shows "init_implies_started (exec env fo s)"
proof -
  obtain fuel oper where fo: "fo = (fuel, oper)" by (cases fo)
  note keep = steps_init_implies_started[where C = receive_cmds]
  show ?thesis
  proof (cases oper)
    case Connect
    show ?thesis unfolding fo Connect exec.simps
      by (rule keep[OF steps_connect[OF rtranclp.rtrancl_refl receive_cmds_mem(3)] assms(2)])
  next
    case (Disconnect ctx expected)
    show ?thesis
    proof (cases expected)
      case True
      then show ?thesis unfolding fo Disconnect exec.simps
        using keep[OF steps_disconnect_expected[OF rtranclp.rtrancl_refl] assms(2)] by simp
    next
      case False
      then have "\<not> is_client_connected env s
                 \<or> \<not> STATUS_ISSET (status_m s) status_client_received_init"
        using assms(1) fo Disconnect by simp
      then show ?thesis
      proof
        assume "\<not> is_client_connected env s"
        then show ?thesis unfolding fo Disconnect exec.simps
          using assms(2) by (simp add: disconnect_def)
      next
        assume "\<not> STATUS_ISSET (status_m s) status_client_received_init"
        then have "\<not> STATUS_ISSET (status_m (disconnect env ctx expected s))
                      status_client_received_init"
          by (simp add: disconnect_def Let_def ISSET_simps)
        then show ?thesis unfolding fo Disconnect exec.simps
          by (simp add: init_implies_started_def)
      qed
    qed
  next
    case (CmdStart buf buflen)
    show ?thesis unfolding fo CmdStart exec.simps
      by (rule keep[OF steps_receive(1)[OF receive_cmds_mem] assms(2)])
  next
    case (CmdReconnect buf buflen)
    show ?thesis unfolding fo CmdReconnect exec.simps
      by (rule keep[OF steps_cmd_reconnect[OF rtranclp.rtrancl_refl] assms(2)])
  next
    case (PublicCall amx name params retval)
    show ?thesis unfolding fo PublicCall exec.simps
      by (rule keep[OF public_call_steps public_call_send_init_implies_started[OF assms(2)]])
  next
    case Tick
    have "init_implies_started (tick_heartbeat env s)"
      using assms(2) by (simp add: init_implies_started_def)
    then show ?thesis unfolding fo Tick exec.simps
      by (rule keep[OF tick_steps])
  qed
qed

lemma run_init_implies_started:
  "\<forall>fo\<in>set ops. \<not> unexpected_disconnect fo \<Longrightarrow> init_implies_started s
     \<Longrightarrow> init_implies_started (run env s ops)"
  unfolding run_def
proof (induction ops arbitrary: s)
  case Nil
  then show ?case by simp
next
  case (Cons fo ops)
  have "init_implies_started (exec env fo s)"
    by (rule exec_init_implies_started) (use Cons.prems in simp_all)
  then show ?case using Cons by simp
qed

lemma disconnect_received_init:
  assumes "STATUS_ISSET (status_m s) status_client_received_init"
  shows "STATUS_ISSET (status_m (disconnect env context expected s)) status_client_received_init"
  using assms by (simp add: disconnect_def Let_def ISSET_simps)

lemma exec_received_init:
  assumes "STATUS_ISSET (status_m s) status_client_received_init"
  shows "STATUS_ISSET (status_m (exec env fo s)) status_client_received_init"
proof -
  obtain fuel oper where fo: "fo = (fuel, oper)" by (cases fo)
  note keep = steps_received_init[where C = receive_cmds]
  show ?thesis
  proof (cases oper)
    case Connect
    show ?thesis unfolding fo Connect exec.simps
      by (rule keep[OF steps_connect[OF rtranclp.rtrancl_refl receive_cmds_mem(3)] assms])
  next
    case (Disconnect ctx expected)
    show ?thesis unfolding fo Disconnect exec.simps
      by (rule disconnect_received_init[OF assms])
  next
    case (CmdStart buf buflen)
    show ?thesis unfolding fo CmdStart exec.simps
      by (rule keep[OF steps_receive(1)[OF receive_cmds_mem] assms])
  next
    case (CmdReconnect buf buflen)
    show ?thesis unfolding fo CmdReconnect exec.simps
      by (rule keep[OF steps_cmd_reconnect[OF rtranclp.rtrancl_refl] assms])
  next
    case (PublicCall amx name params retval)
    show ?thesis unfolding fo PublicCall exec.simps
      by (rule keep[OF public_call_steps public_call_send_received_init[OF assms]])
  next
    case Tick
    have "STATUS_ISSET (status_m (tick_heartbeat env s)) status_client_received_init"
      using assms by simp
    then show ?thesis unfolding fo Tick exec.simps
      by (rule keep[OF tick_steps])
  qed
qed

lemma init_implies_started_server_init: "init_implies_started (server_init t)"
  by (simp add: init_implies_started_def server_init_def STATUS_ISSET_def status_defs)

subsection \<open>Without the start command\<close>





subsection \<open>The sends and the status at each\<close>



subsection \<open>The bytes of a reply\<close>

lemma byte_bits: "bit (ucast (b :: uint8_t) :: uint32_t) n \<Longrightarrow> n < 8"
  by (auto simp: bit_simps dest: bit_imp_le_length)

lemma unat_byte_less: "unat (b :: uint8_t) < 256"
  using unsigned_less[of b, where 'a = nat] by simp

lemma unat_byte: "unat (ucast (b :: uint8_t) :: uint32_t) = unat b"
proof -
  have "unat b < 2 ^ 32" using unat_byte_less[of b] by simp
  then show ?thesis by (simp add: unsigned_ucast_eq take_bit_nat_eq_self)
qed

lemma unat_push_byte:
  "unat (push_bit 8 (ucast (b :: uint8_t) :: uint32_t)) = 256 * unat b"
  "unat (push_bit 16 (ucast (b :: uint8_t) :: uint32_t)) = 65536 * unat b"
  "unat (push_bit 24 (ucast (b :: uint8_t) :: uint32_t)) = 16777216 * unat b"
proof -
  have "256 * unat b < 2 ^ 32" "65536 * unat b < 2 ^ 32" "16777216 * unat b < 2 ^ 32"
    using unat_byte_less[of b] by simp_all
  then show "unat (push_bit 8 (ucast b :: uint32_t)) = 256 * unat b"
    "unat (push_bit 16 (ucast b :: uint32_t)) = 65536 * unat b"
    "unat (push_bit 24 (ucast b :: uint32_t)) = 16777216 * unat b"
    by (simp_all add: push_bit_eq_mult unat_word_ariths unat_byte mult.commute)
qed

lemma bytes_or_add:
  fixes b0 b1 b2 b3 :: uint8_t
  shows "(ucast b0 :: uint32_t) OR push_bit 8 (ucast b1) OR push_bit 16 (ucast b2)
           OR push_bit 24 (ucast b3)
         = ucast b0 + push_bit 8 (ucast b1) + push_bit 16 (ucast b2) + push_bit 24 (ucast b3)"
proof -
  let ?a = "ucast b0 :: uint32_t" and ?b = "push_bit 8 (ucast b1) :: uint32_t"
  let ?c = "push_bit 16 (ucast b2) :: uint32_t" and ?d = "push_bit 24 (ucast b3) :: uint32_t"
  have a: "bit ?a n \<Longrightarrow> n < 8" for n by (rule byte_bits)
  have b: "bit ?b n \<Longrightarrow> 8 \<le> n \<and> n < 16" for n
    using byte_bits[of b1 "n - 8"] by (auto simp: bit_push_bit_iff)
  have c: "bit ?c n \<Longrightarrow> 16 \<le> n \<and> n < 24" for n
    using byte_bits[of b2 "n - 16"] by (auto simp: bit_push_bit_iff)
  have d: "bit ?d n \<Longrightarrow> 24 \<le> n" for n
    by (auto simp: bit_push_bit_iff)
  have 1: "?a + ?b = ?a OR ?b"
    by (rule disjunctive_add) (use a b in fastforce)
  have 2: "(?a OR ?b) + ?c = (?a OR ?b) OR ?c"
    by (rule disjunctive_add) (use a b c in \<open>fastforce simp: bit_or_iff\<close>)
  have 3: "((?a OR ?b) OR ?c) + ?d = ((?a OR ?b) OR ?c) OR ?d"
    by (rule disjunctive_add) (use a b c d in \<open>fastforce simp: bit_or_iff\<close>)
  show ?thesis using 1 2 3 by (simp add: or.assoc)
qed

lemma unat_uint32_at:
  "unat (uint32_at buf i)
     = unat (byte_at buf i) + 256 * unat (byte_at buf (i + 1))
       + 65536 * unat (byte_at buf (i + 2)) + 16777216 * unat (byte_at buf (i + 3))"
proof -
  let ?n = "unat (byte_at buf i) + 256 * unat (byte_at buf (i + 1))
       + 65536 * unat (byte_at buf (i + 2)) + 16777216 * unat (byte_at buf (i + 3))"
  have "?n < 2 ^ 32"
    using unat_byte_less[of "byte_at buf i"] unat_byte_less[of "byte_at buf (i + 1)"]
      unat_byte_less[of "byte_at buf (i + 2)"] unat_byte_less[of "byte_at buf (i + 3)"]
    by simp
  then show ?thesis
    unfolding uint32_at_def bytes_or_add
    by (simp add: unat_word_ariths unat_byte unat_push_byte)
qed

lemma cmd_process_reply_length:
  assumes "cmd_process env fuel cmd buf buflen (None, 0) s = (Returns (stat, Some r, len), s')"
    and "unat buflen \<le> length buf"
  shows "length r = unat len"
  using assms
  by (auto simp: cmd_process.simps split: if_splits prod.splits outcome.splits)

lemma cmd_receive_one_reply_length:
  assumes "receive_fits env"
    and "cmd_receive_one env fuel (None, 0) s = (Returns (stat, Some r, len), s')"
  shows "length r = unat len"
proof -
  obtain ok s1 where c: "connect env s = (ok, s1)" by fastforce
  obtain st command buf command_len t where rc:
    "comm_receive env LEN_NETBUF (communication_m s1) = ((st, command, buf, command_len), t)"
    by (metis prod.exhaust)
  have fits: "st = conn_dead \<or> st = no_cmd \<or> unat command_len \<le> length buf"
    using assms(1) rc unfolding receive_fits_def
    by (metis (mono_tags, lifting) case_prod_conv)
  show ?thesis
  proof (cases "ok \<and> st \<noteq> conn_dead \<and> st \<noteq> no_cmd")
    case False
    then show ?thesis using assms(2) c rc
      by (cases ok) (auto simp: cmd_receive_one.simps split: if_splits)
  next
    case True
    then have "cmd_process env fuel command buf command_len (None, 0) (s1\<lparr>communication_m := t\<rparr>)
                 = (Returns (stat, Some r, len), s')"
      using assms(2) c rc by (auto simp: cmd_receive_one.simps)
    then show ?thesis
      by (rule cmd_process_reply_length) (use True fits in blast)
  qed
qed

lemma cmd_receive_unhandled_reply_length:
  assumes "receive_fits env"
  shows "cmd_receive_unhandled env fuel s = (Returns (b, Some r, len), s') \<Longrightarrow> length r = unat len"
proof (induction fuel arbitrary: s)
  case 0
  then show ?case by (simp add: cmd_receive_unhandled.simps)
next
  case (Suc fuel)
  obtain x s1 where p: "cmd_receive_one env fuel (None, 0) s = (x, s1)" by fastforce
  show ?case
  proof (cases x)
    case OutOfFuel
    then show ?thesis using Suc.prems p by (simp add: cmd_receive_unhandled.simps)
  next
    case (Returns y)
    obtain stat resp n where y: "y = (stat, resp, n)" by (cases y)
    show ?thesis
    proof (cases "stat = handled \<or> stat = no_cmd")
      case True
      then have "cmd_receive_unhandled env fuel s1 = (Returns (b, Some r, len), s')"
        using Suc.prems p Returns y by (auto simp: cmd_receive_unhandled.simps)
      then show ?thesis by (rule Suc.IH)
    next
      case False
      then have "cmd_receive_one env fuel (None, 0) s = (Returns (stat, Some r, len), s')"
        using Suc.prems p Returns y by (auto simp: cmd_receive_unhandled.simps)
      then show ?thesis by (rule cmd_receive_one_reply_length[OF assms])
    qed
  qed
qed

lemma receive_fits_demo_env: "receive_fits demo_env"
proof -
  have "unat (word_of_nat n :: uint32_t) \<le> n" for n
    by (simp add: unat_of_nat)
  then show ?thesis
    by (auto simp: receive_fits_def demo_env_def split: list.splits)
qed

subsection \<open>Concrete runs\<close>

text \<open>The definitions a concrete run unfolds.\<close>

lemmas eval_defs =
  connect_def disconnect_def cmd_send_announce_def cmd_reconnect_def cmd_ping_def cmd_print_def
  cmd_register_call_def cmd_find_native_def cmd_invoke_native_def
  cmd_start.simps cmd_process.simps cmd_receive_one.simps cmd_receive_unhandled.simps
  public_call_def public_call_send_def tick_def tick_heartbeat_def
  is_client_connected_def communication_send_def log_info_def log_error_def print_def
  vlog_def LEN_PRINT_BUFFER_def
  sampgdk_SendRconCommand_def registry_clear_def server_init_def Let_def
  demo_env_def demo_transport0_def
  STATUS_ISSET_def STATUS_SET_def STATUS_UNSET_def status_defs CMD_defs LEN_NETBUF_def

section \<open>The claims\<close>

subsection \<open>C1: client_received_init and client_started\<close>

text \<open>
  Claim C1: in every state reached from the initial status by connect, disconnect,
  \<open>cmd_start\<close>, \<open>cmd_reconnect\<close>, \<open>public_call\<close> and tick operations,
  \<open>client_received_init\<close> is not set while \<open>client_started\<close> is unset. The code
  breaks it. Every place that sets \<open>client_received_init\<close> does so with
  \<open>client_started\<close> set, and every operation keeps the invariant
  (\<open>exec_init_implies_started\<close>) but the unexpected disconnect of a connected client
  that has received init: it clears \<open>client_started\<close> and both registries and leaves
  \<open>client_received_init\<close> set, and no operation clears that flag afterwards
  (\<open>exec_received_init\<close>).

  The theorem runs the code on such a sequence: connect, a start command with mode 0,
  game-mode-init, an unexpected disconnect. In the state reached
  \<open>client_received_init\<close> is set and \<open>client_started\<close> is not. When a new client
  then connects and starts with mode 0, all four of connected, started, client received
  init and server received init are set (the status is 15), and the next tick sends it a
  heartbeat although it never received init; a first client that connects and starts
  after the host has seen game-mode-init is in the same position and gets none.
\<close>

theorem unexpected_disconnect_keeps_received_init:
  "STATUS_ISSET
     (status_m (run demo_env (server_init demo_transport0)
        [(0, Connect), (0, CmdStart [] 0), (0, PublicCall None ''OnGameModeInit'' [] None),
         (0, Disconnect None False)]))
     status_client_received_init
   \<and> \<not> STATUS_ISSET
     (status_m (run demo_env (server_init demo_transport0)
        [(0, Connect), (0, CmdStart [] 0), (0, PublicCall None ''OnGameModeInit'' [] None),
         (0, Disconnect None False)]))
     status_client_started
   \<and> status_m (run demo_env (server_init demo_transport0)
        [(0, Connect), (0, CmdStart [] 0), (0, PublicCall None ''OnGameModeInit'' [] None),
         (0, Disconnect None False), (0, Connect), (0, CmdStart [] 0)]) = 15
   \<and> filter (\<lambda>f. fst f = CMD_TICK)
        (sent (tick_heartbeat demo_env
           (run demo_env (server_init demo_transport0)
              [(0, Connect), (0, CmdStart [] 0), (0, PublicCall None ''OnGameModeInit'' [] None),
               (0, Disconnect None False), (0, Connect), (0, CmdStart [] 0)])))
       = [(CMD_TICK, 0, [])]
   \<and> filter (\<lambda>f. fst f = CMD_TICK)
        (sent (tick_heartbeat demo_env
           (run demo_env (server_init demo_transport0)
              [(0, PublicCall None ''OnGameModeInit'' [] None), (0, Connect),
               (0, CmdStart [] 0)])))
       = []"
  by (simp add: run_def eval_defs bytes_of_uint32_def)

subsection \<open>C2: what the dispatcher handles\<close>

text \<open>
  Claim C2, as amended. \<open>cmd_process\<close> returns handled for the identifiers 0x01, 0x02,
  0x04, 0x05, 0x06 and 0x07, and for 0x08 (start) as soon as \<open>cmd_start\<close> returns; a
  handled command leaves the caller's response pointer and length alone. Every other
  identifier, 0x03 (response) among them, is unhandled and leaves the state alone: with
  a length above zero the caller gets a copy of the first \<open>buflen\<close> bytes and
  \<open>buflen\<close> as the length, with length zero the caller's pointer and length stay as
  they were. The copy has \<open>buflen\<close> bytes, equal to those of the buffer, when the
  buffer holds that many.
\<close>

theorem cmd_process_classifies:
  "(cmd \<in> {0x01, 0x02, 0x04, 0x05, 0x06, 0x07} \<longrightarrow>
      fst (cmd_process env fuel cmd buf buflen (resp, resplen) s)
        = Returns (handled, resp, resplen))
   \<and> (cmd = 0x08 \<longrightarrow>
      fst (cmd_process env fuel cmd buf buflen (resp, resplen) s)
        = (case fst (cmd_start env fuel buf buflen s) of
             OutOfFuel \<Rightarrow> OutOfFuel
           | Returns u \<Rightarrow> Returns (handled, resp, resplen)))
   \<and> (cmd \<notin> {0x01, 0x02, 0x04, 0x05, 0x06, 0x07, 0x08} \<longrightarrow>
      cmd_process env fuel cmd buf buflen (resp, resplen) s
        = (Returns (unhandled,
                    if buflen > 0 then (Some (take (unat buflen) buf), buflen)
                    else (resp, resplen)),
           s))
   \<and> (unat buflen \<le> length buf \<longrightarrow>
      length (take (unat buflen) buf) = unat buflen
      \<and> (\<forall>i < unat buflen. take (unat buflen) buf ! i = buf ! i))"
  by (auto simp: cmd_process.simps CMD_defs split: prod.splits outcome.splits)

theorem cmd_process_classifies_witness:
  "fst (cmd_process demo_env 0 0x01 [] 0 (None, 0) (demo_server [] []))
     = Returns (handled, None, 0)
   \<and> cmd_process demo_env 0 0x14 [1, 2, 3] 2 (None, 0) (demo_server [] [])
     = (Returns (unhandled, Some [1, 2], 2), demo_server [] [])"
  using cmd_process_classifies[of "0x01" demo_env 0 "[]" 0 None 0 "demo_server [] []"]
    cmd_process_classifies[of "0x14" demo_env 0 "[1, 2, 3]" 2 None 0 "demo_server [] []"]
  by simp

text \<open>The claim as stated fails: the identifier 0x03 is unhandled.\<close>

theorem cmd_response_is_unhandled:
  "fst (cmd_process demo_env 0 0x03 [7] 1 (None, 0) (demo_server [] []))
     = Returns (unhandled, Some [7], 1)"
  by (simp add: cmd_process.simps CMD_defs)

subsection \<open>C3: forwarding game-mode-init\<close>





text \<open>
  More than one public-call frame can be sent during one call: a start command with
  mode 2 handled while waiting for the reply sends its own.
\<close>

lemma public_call_nested_start:
  "sent (snd (public_call demo_env 3 None ''OnGameModeInit'' [] None
                (demo_server [(0x08, [2]), (0x03, [1]), (0x03, [1])] [[1]])))
     = [(CMD_PUBLIC_CALL, 1, [14]), (CMD_PUBLIC_CALL, 1, [14])]"
  by (simp add: demo_server_def eval_defs byte_at_def numeral_3_eq_3)

subsection \<open>C4: the effect of disconnect\<close>

text \<open>
  Claim C4, as amended. \<open>disconnect\<close> does nothing when the client is not connected.
  When it is connected, an unexpected disconnect leaves \<open>client_started\<close> cleared and
  both registries empty, and an expected disconnect logs, tears the transport down, sets
  it up again and clears \<open>client_connected\<close>, and changes nothing else: whether
  connected or not, it keeps the registries and \<open>client_started\<close>.
\<close>

theorem disconnect_effect:
  "(is_client_connected env s \<longrightarrow>
      \<not> STATUS_ISSET (status_m (disconnect env context False s)) status_client_started
      \<and> natives_m (disconnect env context False s) = []
      \<and> callbacks_m (disconnect env context False s) = [])
   \<and> (is_client_connected env s \<longrightarrow>
      disconnect env context True s =
        (log_info ''Client disconnected.'' s)
          \<lparr>communication_m := snd (comm_setup env (comm_disconnect env (communication_m s))),
           status_m := STATUS_UNSET (status_m s) status_client_connected\<rparr>)
   \<and> natives_m (disconnect env context True s) = natives_m s
   \<and> callbacks_m (disconnect env context True s) = callbacks_m s
   \<and> STATUS_ISSET (status_m (disconnect env context True s)) status_client_started
       = STATUS_ISSET (status_m s) status_client_started
   \<and> (\<not> is_client_connected env s \<longrightarrow> disconnect env context expected s = s)"
  by (simp add: disconnect_def Let_def registry_clear_def ISSET_simps log_info_def log_error_def)

theorem disconnect_effect_witness:
  "is_client_connected demo_env (demo_server [] [[1]])
   \<and> \<not> STATUS_ISSET (status_m (disconnect demo_env None False (demo_server [] [[1]])))
         status_client_started
   \<and> callbacks_m (disconnect demo_env None False (demo_server [] [[1]])) = []
   \<and> callbacks_m (disconnect demo_env None True (demo_server [] [[1]])) = [[1]]
   \<and> STATUS_ISSET (status_m (disconnect demo_env None True (demo_server [] [[1]])))
         status_client_started"
proof -
  have c: "is_client_connected demo_env (demo_server [] [[1]])"
    by (simp add: demo_server_def eval_defs)
  have s: "STATUS_ISSET (status_m (demo_server [] [[1]])) status_client_started"
    by (simp add: demo_server_def ISSET_simps)
  have cb: "callbacks_m (demo_server [] [[1]]) = [[1]]" by (simp add: demo_server_def)
  from disconnect_effect[of demo_env "demo_server [] [[1]]" None] c
  have "\<not> STATUS_ISSET (status_m (disconnect demo_env None False (demo_server [] [[1]])))
           status_client_started"
    and "callbacks_m (disconnect demo_env None False (demo_server [] [[1]])) = []"
    and "callbacks_m (disconnect demo_env None True (demo_server [] [[1]]))
          = callbacks_m (demo_server [] [[1]])"
    and "STATUS_ISSET (status_m (disconnect demo_env None True (demo_server [] [[1]])))
           status_client_started
          = STATUS_ISSET (status_m (demo_server [] [[1]])) status_client_started"
    by blast+
  then show ?thesis using c s cb by simp
qed

text \<open>
  The claim as stated fails: after connect, start and a reconnect command the client is
  not connected, and an unexpected disconnect leaves \<open>client_started\<close> set.
\<close>

theorem disconnect_unexpected_when_not_connected:
  "STATUS_ISSET
     (status_m (disconnect demo_env None False
        (run demo_env (server_init demo_transport0)
           [(0, Connect), (0, CmdStart [] 0), (0, CmdReconnect [] 0)])))
     status_client_started"
  by (simp add: run_def eval_defs)

subsection \<open>C5: the reply to a public call\<close>

text \<open>
  Claim C5. Let \<open>public_call\<close> have sent the call, let the drain for the reply
  return, and let the transport hand over as many bytes as it reports. If the drain
  yields no reply (it returns false, or the response pointer is null) or a reply of
  length zero, the error is logged and the return-value slot is left as it is.
  Otherwise the reply holds \<open>len\<close> bytes, and if it is at least 5 bytes long and its
  first byte is not zero, the slot the caller gave gets the 32-bit value of the bytes 1
  to 4, byte 1 the least significant: byte 1 + 256 * byte 2 + 65536 * byte 3 +
  16777216 * byte 4 (a null \<open>retval\<close> stays null). A shorter reply, or one whose first
  byte is zero, leaves the slot alone.
\<close>

theorem public_call_reply:
  assumes "public_call_send env amx name params s = (True, s1)"
    and "cmd_receive_unhandled env fuel s1 = (Returns (received, response, len), s2)"
    and "receive_fits env"
  shows
    "(\<not> received \<or> response = None \<or> len = 0 \<longrightarrow>
        public_call env fuel amx name params retval s
          = (Returns retval,
             s2\<lparr>console := console s2
                  @ [LogError (vlog (''Received no response to callback '' @ name @ ''.''))]\<rparr>))
     \<and> (received \<and> response = Some r \<and> 5 \<le> len \<and> r ! 0 \<noteq> 0 \<longrightarrow>
        length r = unat len
        \<and> public_call env fuel amx name params None s = (Returns None, s2)
        \<and> (\<exists>v. public_call env fuel amx name params (Some old) s = (Returns (Some v), s2)
               \<and> unat v = unat (r ! 1) + 256 * unat (r ! 2) + 65536 * unat (r ! 3)
                           + 16777216 * unat (r ! 4)))
     \<and> (received \<and> response = Some r \<and> len \<noteq> 0 \<and> (len < 5 \<or> r ! 0 = 0) \<longrightarrow>
        length r = unat len
        \<and> public_call env fuel amx name params retval s = (Returns retval, s2))"
proof -
  have none: "public_call env fuel amx name params retval s
          = (Returns retval,
             s2\<lparr>console := console s2
                  @ [LogError (vlog (''Received no response to callback '' @ name @ ''.''))]\<rparr>)"
    if "\<not> received \<or> response = None \<or> len = 0"
    using that assms(1,2) by (auto simp: public_call_def log_error_def split: option.splits)
  have some: "length r = unat len \<and> 0 < length r \<and> byte_at r 0 = r ! 0"
    if "response = Some r" "len \<noteq> 0"
  proof -
    have l: "length r = unat len"
      using cmd_receive_unhandled_reply_length[OF assms(3)] assms(2) that(1) by blast
    moreover have "0 < unat len" using that(2) by (simp add: unat_gt_0)
    ultimately show ?thesis by (simp add: byte_at_def)
  qed
  have written: "length r = unat len
        \<and> public_call env fuel amx name params None s = (Returns None, s2)
        \<and> (\<exists>v. public_call env fuel amx name params (Some old) s = (Returns (Some v), s2)
               \<and> unat v = unat (r ! 1) + 256 * unat (r ! 2) + 65536 * unat (r ! 3)
                           + 16777216 * unat (r ! 4))"
    if h: "received" "response = Some r" "5 \<le> len" "r ! 0 \<noteq> 0"
  proof -
    have nz: "len \<noteq> 0" using h(3) by auto
    note l = some[OF h(2) nz]
    have "5 \<le> unat len" using h(3) by (simp add: word_le_nat_alt)
    then have len5: "5 \<le> length r" using l by simp
    then have b: "byte_at r 1 = r ! 1" "byte_at r (1 + 1) = r ! 2" "byte_at r (1 + 2) = r ! 3"
      "byte_at r (1 + 3) = r ! 4"
      by (simp_all add: byte_at_def eval_nat_numeral)
    have "unat (uint32_at r 1) = unat (r ! 1) + 256 * unat (r ! 2) + 65536 * unat (r ! 3)
                           + 16777216 * unat (r ! 4)"
      unfolding unat_uint32_at b ..
    moreover have "public_call env fuel amx name params (Some old) s
                     = (Returns (Some (uint32_at r 1)), s2)"
      using assms(1,2) h nz l by (simp add: public_call_def)
    moreover have "public_call env fuel amx name params None s = (Returns None, s2)"
      using assms(1,2) h nz l by (simp add: public_call_def)
    ultimately show ?thesis using l by blast
  qed
  have short: "length r = unat len
        \<and> public_call env fuel amx name params retval s = (Returns retval, s2)"
    if h: "received" "response = Some r" "len \<noteq> 0" "len < 5 \<or> r ! 0 = 0"
  proof -
    note l = some[OF h(2,3)]
    have "\<not> (5 \<le> len \<and> byte_at r 0 \<noteq> 0)" using h(4) l by auto
    then have "public_call env fuel amx name params retval s = (Returns retval, s2)"
      using assms(1,2) h(1,2,3) by (auto simp: public_call_def)
    then show ?thesis using l by simp
  qed
  show ?thesis using none written short by blast
qed

theorem public_call_reply_witness:
  "receive_fits demo_env
   \<and> fst (public_call demo_env 1 None ''OnGameModeInit'' [] (Some 0)
          (demo_server [(0x03, [1, 0x78, 0x56, 0x34, 0x12])] [[1]])) = Returns (Some 0x12345678)
   \<and> public_call demo_env 1 None ''OnGameModeInit'' [] (Some 7)
          (demo_server [(0x03, [])] [[1]])
       = (Returns (Some 7),
          (snd (cmd_receive_unhandled demo_env 1
                  (snd (public_call_send demo_env None ''OnGameModeInit'' []
                          (demo_server [(0x03, [])] [[1]])))))
            \<lparr>console := [LogError ''Received no response to callback OnGameModeInit.'']\<rparr>)"
proof -
  let ?r = "[1, 0x78, 0x56, 0x34, 0x12] :: uint8_t list"
  let ?s = "demo_server [(0x03, ?r)] [[1]]"
  let ?s1 = "snd (public_call_send demo_env None ''OnGameModeInit'' [] ?s)"
  let ?s2 = "snd (cmd_receive_unhandled demo_env 1 ?s1)"
  have a: "public_call_send demo_env None ''OnGameModeInit'' [] ?s = (True, ?s1)"
    by (simp add: demo_server_def eval_defs)
  have b: "cmd_receive_unhandled demo_env 1 ?s1 = (Returns (True, Some ?r, 5), ?s2)"
    by (simp add: demo_server_def eval_defs)
  from public_call_reply[OF a b receive_fits_demo_env, where r = ?r and old = 0]
  obtain v where v: "public_call demo_env 1 None ''OnGameModeInit'' [] (Some 0) ?s
                       = (Returns (Some v), ?s2)"
      "unat v = unat (?r ! 1) + 256 * unat (?r ! 2) + 65536 * unat (?r ! 3)
                + 16777216 * unat (?r ! 4)"
    by auto
  have "unat v = unat (0x12345678 :: uint32_t)" using v(2) by simp
  then have v': "v = 0x12345678" by (simp only: word_unat_eq_iff)
  let ?t = "demo_server [(0x03, [])] [[1]]"
  let ?t1 = "snd (public_call_send demo_env None ''OnGameModeInit'' [] ?t)"
  let ?t2 = "snd (cmd_receive_unhandled demo_env 1 ?t1)"
  have c: "public_call_send demo_env None ''OnGameModeInit'' [] ?t = (True, ?t1)"
    by (simp add: demo_server_def eval_defs)
  have d: "cmd_receive_unhandled demo_env 1 ?t1 = (Returns (True, None, 0), ?t2)"
    by (simp add: demo_server_def eval_defs)
  have e: "console ?t2 = []"
    by (simp add: demo_server_def eval_defs)
  show ?thesis
    using v(1) v' receive_fits_demo_env
      public_call_reply[OF c d receive_fits_demo_env, where r = "[]" and retval = "Some 7"] e
    by (simp add: vlog_short LEN_PRINT_BUFFER_def)
qed

subsection \<open>C6: draining for a reply\<close>




subsection \<open>C7: connect is idempotent\<close>

text \<open>
  Claim C7. In every state in which the transport is already connected, \<open>connect()\<close>
  returns true and leaves the whole server state as it is: no announcement frame is
  sent and no status flag changes.
\<close>

theorem connect_idempotent:
  "comm_is_connected env (communication_m s) \<Longrightarrow> connect env s = (True, s)"
  by (simp add: connect_def)

theorem connect_idempotent_witness:
  "comm_is_connected demo_env (communication_m (demo_server [] []))
   \<and> connect demo_env (demo_server [] []) = (True, demo_server [] [])"
proof -
  have c: "comm_is_connected demo_env (communication_m (demo_server [] []))"
    by (simp add: demo_server_def demo_env_def)
  show ?thesis using c connect_idempotent[OF c] by simp
qed

subsection \<open>C8: no public call is forwarded before the client received init\<close>

text \<open>
  Claim C8. A \<open>public_call\<close> for an event other than game-mode-init, in a state where
  \<open>client_received_init\<close> is unset, returns with whatever fuel, leaves the return-value
  slot alone, sends no frame, and leaves the state as it is, but for
  \<open>server_received_init\<close>, which game-mode-exit clears.
\<close>

theorem public_call_before_init:
  assumes "name \<noteq> ''OnGameModeInit''"
    and "\<not> STATUS_ISSET (status_m s) status_client_received_init"
  shows "public_call env fuel amx name params retval s =
           (Returns retval,
            if name = ''OnGameModeExit''
            then s\<lparr>status_m := STATUS_UNSET (status_m s) status_server_received_init\<rparr>
            else s)
         \<and> sent (snd (public_call env fuel amx name params retval s)) = sent s"
  using assms
  by (simp add: public_call_def public_call_send_def Let_def ISSET_simps)

theorem public_call_before_init_witness:
  "\<not> STATUS_ISSET (status_m (demo_server [] [[1]])) status_client_received_init
   \<and> public_call demo_env 3 None ''OnPlayerConnect'' [4, 0] (Some 7) (demo_server [] [[1]])
       = (Returns (Some 7), demo_server [] [[1]])
   \<and> sent (snd (public_call demo_env 3 None ''OnPlayerConnect'' [4, 0] (Some 7)
                   (demo_server [] [[1]]))) = []"
proof -
  have a: "\<not> STATUS_ISSET (status_m (demo_server [] [[1]])) status_client_received_init"
    by (simp add: demo_server_def STATUS_ISSET_def STATUS_SET_def status_defs)
  have b: "''OnPlayerConnect'' \<noteq> ''OnGameModeInit''" by simp
  have c: "sent (demo_server [] [[1]]) = []" by (simp add: demo_server_def)
  show ?thesis
    using a c public_call_before_init[OF b a, of demo_env 3 None "[4, 0]" "Some 7"] by simp
qed

subsection \<open>C9: the heartbeat of a tick\<close>

text \<open>
  Claim C9. With whatever fuel, the frames a \<open>tick\<close> sends begin with one heartbeat
  (\<open>CMD_TICK\<close>, length 0, no bytes) exactly when the client is connected and both
  \<open>client_started\<close> and \<open>client_received_init\<close> are set, and no frame sent after it
  during the tick is a heartbeat: in a state where a flag is unset the tick sends none.
\<close>

theorem tick_heartbeat_sent:
  "\<exists>rest. sent (snd (tick env fuel s))
            = sent s
              @ (if is_client_connected env s
                    \<and> STATUS_ISSET (status_m s) status_client_started
                    \<and> STATUS_ISSET (status_m s) status_client_received_init
                 then [(CMD_TICK, 0, [])] else [])
              @ rest
          \<and> CMD_TICK \<notin> fst ` set rest"
proof -
  from steps_sent[OF tick_steps[of env s fuel]] obtain rest where
    r: "sent (snd (tick env fuel s)) = sent (tick_heartbeat env s) @ rest"
      "fst ` set rest \<subseteq> receive_cmds"
    by blast
  have "CMD_TICK \<notin> fst ` set rest"
    using r(2) CMD_TICK_notin_receive_cmds by blast
  moreover have "sent (tick_heartbeat env s)
      = sent s @ (if is_client_connected env s
                    \<and> STATUS_ISSET (status_m s) status_client_started
                    \<and> STATUS_ISSET (status_m s) status_client_received_init
                  then [(CMD_TICK, 0, [])] else [])"
    by (simp add: tick_heartbeat_def ISSET_OR)
  ultimately show ?thesis using r(1) by simp
qed

theorem tick_heartbeat_sent_witness:
  "filter (\<lambda>f. fst f = CMD_TICK) (sent (snd (tick demo_env 3 demo_initialised)))
     = [(CMD_TICK, 0, [])]
   \<and> filter (\<lambda>f. fst f = CMD_TICK) (sent (snd (tick demo_env 3 (demo_server [(0x01, [])] []))))
     = []"
proof -
  have a: "is_client_connected demo_env demo_initialised
           \<and> STATUS_ISSET (status_m demo_initialised) status_client_started
           \<and> STATUS_ISSET (status_m demo_initialised) status_client_received_init"
    by (simp add: demo_initialised_def demo_server_def eval_defs)
  have b: "\<not> STATUS_ISSET (status_m (demo_server [(0x01, [])] [])) status_client_received_init"
    by (simp add: demo_server_def eval_defs)
  have c: "sent demo_initialised = []" "sent (demo_server [(0x01, [])] []) = []"
    by (simp_all add: demo_initialised_def demo_server_def)
  from tick_heartbeat_sent[of demo_env 3 demo_initialised] a c obtain r1 where
    r1: "sent (snd (tick demo_env 3 demo_initialised)) = (CMD_TICK, 0, []) # r1"
      "CMD_TICK \<notin> fst ` set r1"
    by auto
  from tick_heartbeat_sent[of demo_env 3 "demo_server [(0x01, [])] []"] b c
  obtain r2 where r2: "sent (snd (tick demo_env 3 (demo_server [(0x01, [])] []))) = r2"
      "CMD_TICK \<notin> fst ` set r2"
    by auto
  have "filter (\<lambda>f. fst f = CMD_TICK) r1 = []" "filter (\<lambda>f. fst f = CMD_TICK) r2 = []"
    using r1(2) r2(2) by (force simp: filter_empty_conv)+
  then show ?thesis using r1(1) r2(1) by simp
qed

subsection \<open>C10: a reply of length zero\<close>

text \<open>
  Claim C10. For an unhandled identifier and length zero, \<open>cmd_process\<close> returns
  unhandled and leaves the null pointer and the length 0 it was given, so a pull of the
  drain that receives such a frame ends the drain with true, a null pointer and length
  0. \<open>public_call\<close> and the fake-init path of \<open>cmd_start\<close> then log the same error
  and return as they do when the drain returns false.
\<close>

theorem zero_length_reply:
  "(cmd \<notin> {0x01, 0x02, 0x04, 0x05, 0x06, 0x07, 0x08} \<longrightarrow>
      cmd_process env fuel cmd buf 0 (None, 0) s = (Returns (unhandled, None, 0), s))
   \<and> (connect env s = (True, s1)
       \<and> comm_receive env LEN_NETBUF (communication_m s1) = ((stat, cmd, buf, 0), t)
       \<and> stat \<noteq> conn_dead \<and> stat \<noteq> no_cmd
       \<and> cmd \<notin> {0x01, 0x02, 0x04, 0x05, 0x06, 0x07, 0x08} \<longrightarrow>
      cmd_receive_unhandled env (Suc fuel) s
        = (Returns (True, None, 0), s1\<lparr>communication_m := t\<rparr>))
   \<and> (public_call_send env amx name params s = (True, p1)
       \<and> cmd_receive_unhandled env fuel p1 = (Returns (received, None, 0), p2) \<longrightarrow>
      public_call env fuel amx name params retval s
        = (Returns retval,
           log_error (''Received no response to callback '' @ name @ ''.'') p2))
   \<and> (buflen \<noteq> 0 \<and> byte_at buf 0 = 2
       \<and> STATUS_ISSET (status_m s) status_server_received_init
       \<and> callbacks_fill_call_buffer env (callbacks_m s) None ''OnGameModeInit'' [0] LEN_NETBUF
           = (len, out)
       \<and> len \<noteq> 0
       \<and> cmd_receive_unhandled env fuel
            (communication_send env CMD_PUBLIC_CALL len out
               ((log_info ''The gamemode has started.'' s)
                  \<lparr>status_m := STATUS_SET (STATUS_SET (status_m s) status_client_started)
                                   status_client_received_init\<rparr>))
           = (Returns (received, None, 0), q2) \<longrightarrow>
      cmd_start env fuel buf buflen s
        = (Returns (), log_error ''Received no response to callback OnGameModeInit.'' q2))"
  by (auto simp: cmd_process.simps cmd_receive_one.simps cmd_receive_unhandled.simps
      cmd_start.simps public_call_def CMD_defs Let_def ISSET_simps log_info_def)

theorem zero_length_reply_witness:
  "cmd_process demo_env 0 0x03 [] 0 (None, 0) (demo_server [] [])
     = (Returns (unhandled, None, 0), demo_server [] [])
   \<and> fst (cmd_receive_unhandled demo_env 1 (demo_server [(0x03, [])] [[1]]))
     = Returns (True, None, 0)
   \<and> fst (public_call demo_env 1 None ''OnGameModeInit'' [] (Some 7)
            (demo_server [(0x03, [])] [[1]])) = Returns (Some 7)
   \<and> console (snd (public_call demo_env 1 None ''OnGameModeInit'' [] (Some 7)
                      (demo_server [(0x03, [])] [[1]])))
     = [LogError ''Received no response to callback OnGameModeInit.'']"
proof -
  let ?t = "demo_server [(0x03, [])] [[1]]"
  let ?t1 = "snd (public_call_send demo_env None ''OnGameModeInit'' [] ?t)"
  let ?t2 = "snd (cmd_receive_unhandled demo_env 1 ?t1)"
  have a: "public_call_send demo_env None ''OnGameModeInit'' [] ?t = (True, ?t1)"
    by (simp add: demo_server_def eval_defs)
  have b: "cmd_receive_unhandled demo_env 1 ?t1 = (Returns (True, None, 0), ?t2)"
    by (simp add: demo_server_def eval_defs)
  have c: "console ?t2 = []"
    by (simp add: demo_server_def eval_defs)
  have d: "connect demo_env ?t = (True, ?t)"
    by (simp add: demo_server_def eval_defs)
  have e: "comm_receive demo_env LEN_NETBUF (communication_m ?t)
             = ((handled, 0x03, [], 0), (communication_m ?t)\<lparr>demo_inbox := []\<rparr>)"
    by (simp add: demo_server_def demo_env_def)
  note z1 = zero_length_reply[where cmd = "0x03" and env = demo_env and fuel = 0
      and s = "demo_server [] []" and buf = "[]"]
  note z2 = zero_length_reply[where cmd = "0x03" and env = demo_env and fuel = 0
      and s = ?t and ?s1.0 = ?t and stat = handled and buf = "[]"
      and t = "(communication_m ?t)\<lparr>demo_inbox := []\<rparr>"]
  note z3 = zero_length_reply[where env = demo_env and fuel = 1 and amx = None
      and name = "''OnGameModeInit''" and params = "[]" and s = ?t and ?p1.0 = ?t1
      and received = True and ?p2.0 = ?t2 and retval = "Some 7"]
  have r1: "cmd_process demo_env 0 0x03 [] 0 (None, 0) (demo_server [] [])
             = (Returns (unhandled, None, 0), demo_server [] [])"
    using z1 by simp
  have r2: "fst (cmd_receive_unhandled demo_env 1 ?t) = Returns (True, None, 0)"
    using z2 d e by simp
  have r3: "public_call demo_env 1 None ''OnGameModeInit'' [] (Some 7) ?t
              = (Returns (Some 7),
                 log_error ''Received no response to callback OnGameModeInit.'' ?t2)"
    using z3 a b by simp
  show ?thesis using r1 r2 r3 c by (simp add: log_error_def vlog_short LEN_PRINT_BUFFER_def)
qed

end
